theory Spec2Isabelle
  imports Complex_Main
begin

section \<open>Data model\<close>

text \<open>
  The development embeds two source files of the tile-based splatting renderer:
  \<^verbatim>\<open>rasterizer/backward.py\<close> (the configuration record and the backward kernel) and
  \<^verbatim>\<open>renderer2d.py\<close> (padding of the image size and the render entry point).

  Conventions of the embedding:
  \<^item> \<^verbatim>\<open>ti.f32\<close> values and Python floats are idealised as \<^typ>\<open>real\<close>; rounding, infinities
    and NaN are outside the model. In HOL \<open>x / 0 = 0\<close>: the kernel's two divisions are by
    one minus the clamped alpha, and the statement C5 gives the condition,
    \<open>clamp_max_alpha < 1\<close>, under which that divisor is positive.
  \<^item> \<^verbatim>\<open>ti.i32\<close> indices are \<^typ>\<open>int\<close>: the index arithmetic of the kernel stays within
    \<open>tile_area\<close> of the range's bounds, and the spec leaves the sizing of the overlap count
    below the overflow of the index type to the caller.
  \<^item> An \<^verbatim>\<open>ndarray\<close> is a total function from its index to the element stored there.
  \<^item> A feature vector has a run-time length (\<^verbatim>\<open>feature_size\<close>) and is a list of reals;
    an element-wise operation on two vectors of different lengths is rejected by
    Taichi, which is the error \<open>ShapeMismatch\<close> here.
  \<^item> The threads of the kernel are simulated one after the other, each with a schedule
    that says which slots of the block's shared arrays another thread has already
    overwritten when this thread reads them. The additions to the gradient arrays commute,
    so their order among the threads is not modelled.
\<close>

datatype error = ShapeMismatch | ZeroDivisionError

type_synonym vec = "real list"
type_synonym vec2 = "real \<times> real"
type_synonym vec3 = "real \<times> real \<times> real"
type_synonym ivec2 = "int \<times> int"

text \<open>\<^verbatim>\<open>class Config\<close>, a frozen dataclass of four fields.\<close>

record Config =
  tile_size :: int
  clamp_max_alpha :: real
  alpha_threshold :: real
  saturate_threshold :: real

text \<open>
  The generated constructor of the dataclass: an omitted argument (\<open>None\<close>) takes the
  default written in the class body. The class has no \<^verbatim>\<open>__post_init__\<close>, so the
  constructor stores every value it is given.
\<close>

definition Config_init ::
  "int option \<Rightarrow> real option \<Rightarrow> real option \<Rightarrow> real option \<Rightarrow> Config" where
  "Config_init ts cma ath sth =
     \<lparr>tile_size = (case ts of None \<Rightarrow> 16 | Some v \<Rightarrow> v),
      clamp_max_alpha = (case cma of None \<Rightarrow> 99 / 100 | Some v \<Rightarrow> v),
      alpha_threshold = (case ath of None \<Rightarrow> 1 / 255 | Some v \<Rightarrow> v),
      saturate_threshold = (case sth of None \<Rightarrow> 9999 / 10000 | Some v \<Rightarrow> v)\<rparr>"

text \<open>
  Modelled from the spec: \<^verbatim>\<open>Gaussian2D\<close> of \<^verbatim>\<open>taichi_splatting.data_types\<close>, which is not
  among the sources. The spec gives the packed record of a primitive as mean (2 floats),
  conic (3 floats) and opacity (1 float); the kernel's comments give its size as 6.
  \<open>pack\<close> builds the record and \<open>unpack\<close> reads its three parts back.
\<close>

record Gaussian2D =
  uv :: vec2
  uv_conic :: vec3
  point_alpha :: real

definition pack :: "vec2 \<Rightarrow> vec3 \<Rightarrow> real \<Rightarrow> Gaussian2D" where
  "pack m c a = \<lparr>uv = m, uv_conic = c, point_alpha = a\<rparr>"

definition unpack :: "Gaussian2D \<Rightarrow> vec2 \<times> vec3 \<times> real" where
  "unpack g = (uv g, uv_conic g, point_alpha g)"

text \<open>Arithmetic of the fixed-size vector types, component by component.\<close>

definition scale2 :: "real \<Rightarrow> vec2 \<Rightarrow> vec2" where
  "scale2 s v = (s * fst v, s * snd v)"

definition scale3 :: "real \<Rightarrow> vec3 \<Rightarrow> vec3" where
  "scale3 s v = (s * fst v, s * fst (snd v), s * snd (snd v))"

definition add2 :: "vec2 \<Rightarrow> vec2 \<Rightarrow> vec2" where
  "add2 a b = (fst a + fst b, snd a + snd b)"

definition add3 :: "vec3 \<Rightarrow> vec3 \<Rightarrow> vec3" where
  "add3 a b = (fst a + fst b, fst (snd a) + fst (snd b), snd (snd a) + snd (snd b))"

definition gscale :: "real \<Rightarrow> Gaussian2D \<Rightarrow> Gaussian2D" where
  "gscale s g = \<lparr>uv = scale2 s (uv g), uv_conic = scale3 s (uv_conic g),
                 point_alpha = s * point_alpha g\<rparr>"

definition gadd :: "Gaussian2D \<Rightarrow> Gaussian2D \<Rightarrow> Gaussian2D" where
  "gadd a b = \<lparr>uv = add2 (uv a) (uv b), uv_conic = add3 (uv_conic a) (uv_conic b),
               point_alpha = point_alpha a + point_alpha b\<rparr>"

text \<open>
  Arithmetic of feature vectors. A vector combined with a scalar keeps its length; two
  vectors combine only when their lengths agree.
\<close>

definition vscale :: "vec \<Rightarrow> real \<Rightarrow> vec" where
  "vscale v s = map (\<lambda>x. x * s) v"

definition vdivs :: "vec \<Rightarrow> real \<Rightarrow> vec" where
  "vdivs v s = map (\<lambda>x. x / s) v"

definition svscale :: "real \<Rightarrow> vec \<Rightarrow> vec" where
  "svscale s v = map (\<lambda>x. s * x) v"

definition vbinop :: "(real \<Rightarrow> real \<Rightarrow> real) \<Rightarrow> vec \<Rightarrow> vec \<Rightarrow> error + vec" where
  "vbinop f a b =
     (if length a = length b then Inr (map2 f a b) else Inl ShapeMismatch)"

definition vadd :: "vec \<Rightarrow> vec \<Rightarrow> error + vec" where
  "vadd = vbinop (+)"

definition vsub :: "vec \<Rightarrow> vec \<Rightarrow> error + vec" where
  "vsub = vbinop (-)"

definition vmul :: "vec \<Rightarrow> vec \<Rightarrow> error + vec" where
  "vmul = vbinop (*)"

definition bind_r :: "error + 'a \<Rightarrow> ('a \<Rightarrow> error + 'b) \<Rightarrow> error + 'b" where
  "bind_r m f = (case m of Inl e \<Rightarrow> Inl e | Inr x \<Rightarrow> f x)"

text \<open>\<^verbatim>\<open>for i in range(n)\<close>: the body runs for \<open>0, 1, ..., n - 1\<close>, not at all when \<open>n \<le> 0\<close>,
  and the first error ends the loop.\<close>

definition range_py :: "int \<Rightarrow> int list" where
  "range_py n = map int [0..<nat n]"

fun for_each :: "('a \<Rightarrow> 's \<Rightarrow> error + 's) \<Rightarrow> 'a list \<Rightarrow> 's \<Rightarrow> error + 's" where
  "for_each body [] s = Inr s"
| "for_each body (x # xs) s = bind_r (body x s) (for_each body xs)"

section \<open>The backward kernel\<close>

text \<open>The arrays the kernel only reads.\<close>

record kernel_args =
  points :: "int \<Rightarrow> Gaussian2D"
  point_features :: "int \<Rightarrow> vec"
  tile_overlap_ranges :: "int \<Rightarrow> ivec2"
  overlap_to_point :: "int \<Rightarrow> int"
  grad_image_feature :: "int \<times> int \<Rightarrow> vec"

text \<open>The two output gradient arrays, which every thread adds to.\<close>

record buffers =
  grad_points :: "int \<Rightarrow> Gaussian2D"
  grad_point_features :: "int \<Rightarrow> vec"

text \<open>What one thread (one pixel) carries along its walk: the running transmittance
  \<^verbatim>\<open>T_i\<close> and the suffix sum \<^verbatim>\<open>w_i\<close>, besides the gradient arrays.\<close>

record thread_state = buffers +
  T_i :: real
  w_i :: vec

text \<open>The arrays saved by the forward pass, which the kernel reads and writes, together
  with the gradient arrays.\<close>

record kernel_state = buffers +
  image_feature :: "int \<times> int \<Rightarrow> vec"
  image_alpha :: "int \<times> int \<Rightarrow> real"
  image_last_valid :: "int \<times> int \<Rightarrow> int"

text \<open>The block's shared arrays \<^verbatim>\<open>tile_point\<close> and \<^verbatim>\<open>tile_feature\<close>.\<close>

record shared =
  tile_point :: "int \<Rightarrow> Gaussian2D"
  tile_feature :: "int \<Rightarrow> vec"

text \<open>
  \<^verbatim>\<open>conic_pdf_with_grad\<close> of \<^verbatim>\<open>taichi_splatting.ti.covariance\<close> is not among the sources.
  It is a parameter \<open>pdf\<close> of the kernel: from the pixel centre, the mean and the conic
  it returns the density and its derivatives with respect to the mean and the conic.
\<close>

type_synonym pdf_fun = "vec2 \<Rightarrow> vec2 \<Rightarrow> vec3 \<Rightarrow> real \<times> vec2 \<times> vec3"

text \<open>Lines 96 to 101, run by the thread \<open>thread_id\<close> of the block: it loads one entry of
  the page into its own slot of the shared arrays.\<close>

definition load_thread ::
  "kernel_args \<Rightarrow> int \<Rightarrow> int \<Rightarrow> int \<Rightarrow> shared \<Rightarrow> shared" where
  "load_thread args block_end_idx block_start_idx thread_id sh =
     (let load_index = block_end_idx - thread_id - 1
      in if load_index \<ge> block_start_idx
         then let point_idx = overlap_to_point args load_index
              in sh\<lparr>tile_point := (tile_point sh)(thread_id := points args point_idx),
                    tile_feature :=
                      (tile_feature sh)(thread_id := point_features args point_idx)\<rparr>
         else sh)"

text \<open>The shared arrays at the barrier of line 103: every thread of the block, that is
  every \<open>thread_id\<close> below \<open>tile_area\<close>, has done its load.\<close>

definition load_page ::
  "kernel_args \<Rightarrow> int \<Rightarrow> int \<Rightarrow> int \<Rightarrow> shared \<Rightarrow> shared" where
  "load_page args tile_area block_end_idx block_start_idx sh =
     fold (load_thread args block_end_idx block_start_idx) (range_py tile_area) sh"

text \<open>Lines 132 and 133: the vector whose sum is the alpha gradient.\<close>

definition alpha_grad_from_feature ::
  "vec \<Rightarrow> real \<Rightarrow> vec \<Rightarrow> real \<Rightarrow> vec \<Rightarrow> error + vec" where
  "alpha_grad_from_feature feature T w alpha grad_pixel_feature =
     bind_r (vsub (vscale feature T) (vdivs w (1 - alpha)))
       (\<lambda>d. vmul d grad_pixel_feature)"

text \<open>Lines 112 to 150: the body of the inner loop from its first test on, for the
  list entry \<open>point_index\<close> whose packed primitive \<open>g\<close> and feature vector \<open>feature\<close> were
  read from the shared arrays. Both \<^verbatim>\<open>continue\<close> statements leave the state as it is.\<close>

definition blend_point ::
  "Config \<Rightarrow> pdf_fun \<Rightarrow> kernel_args \<Rightarrow> ivec2 \<Rightarrow> int \<Rightarrow> vec \<Rightarrow> int \<Rightarrow> Gaussian2D \<Rightarrow> vec \<Rightarrow>
   thread_state \<Rightarrow> error + thread_state" where
  "blend_point config pdf args pixel last_point_idx grad_pixel_feature point_index g
     feature st =
     (if point_index \<ge> last_point_idx then Inr st
      else
        let (m, c, opacity) = unpack g;
            (gaussian_alpha, dp_dmean, dp_dconic) =
              pdf (real_of_int (fst pixel) + 1 / 2, real_of_int (snd pixel) + 1 / 2) m c;
            alpha = opacity * gaussian_alpha
        in if alpha < alpha_threshold config then Inr st
           else
             let alpha = min alpha (clamp_max_alpha config);
                 T = T_i st / (1 - alpha)
             in bind_r (alpha_grad_from_feature feature T (w_i st) alpha grad_pixel_feature)
                  (\<lambda>agf.
                bind_r (vadd (w_i st) (vscale (vscale feature alpha) T))
                  (\<lambda>w.
                let alpha_grad = sum_list agf;
                    point_offset = overlap_to_point args point_index;
                    point_grad_feature = svscale (alpha * T) grad_pixel_feature
                in bind_r (vadd (grad_point_features st point_offset) point_grad_feature)
                     (\<lambda>gpf.
                   Inr (st\<lparr>grad_points := (grad_points st)(point_offset :=
                              gadd (grad_points st point_offset)
                                (gscale alpha_grad
                                   (pack (scale2 opacity dp_dmean)
                                         (scale3 opacity dp_dconic)
                                         gaussian_alpha))),
                            grad_point_features :=
                              (grad_point_features st)(point_offset := gpf),
                            T_i := T, w_i := w\<rparr>)))))"

text \<open>Lines 109 to 116: the inner loop's body for the slot \<open>in_group_idx\<close> of the page
  that starts \<open>group_offset_base\<close> entries before the end of the tile's range. It
  computes the list index of the slot and reads the slot from the shared arrays.\<close>

definition process_point ::
  "Config \<Rightarrow> pdf_fun \<Rightarrow> kernel_args \<Rightarrow> ivec2 \<Rightarrow> int \<Rightarrow> int \<Rightarrow> vec \<Rightarrow> int \<Rightarrow> shared \<Rightarrow>
   int \<Rightarrow> thread_state \<Rightarrow> error + thread_state" where
  "process_point config pdf args pixel end_offset last_point_idx grad_pixel_feature
     group_offset_base sh in_group_idx st =
     (let point_group_offset = group_offset_base + in_group_idx;
          point_index = end_offset - point_group_offset - 1
      in blend_point config pdf args pixel last_point_idx grad_pixel_feature point_index
           (tile_point sh in_group_idx) (tile_feature sh in_group_idx) st)"

text \<open>
  Line 103 is the only barrier of a round of the page loop: nothing holds back a thread
  that has finished the inner loop of a page while other threads still read the page. Such
  a thread enters the next round and stores the next page's entry into its own slot
  (lines 100 and 101) before it waits at the next barrier; it gets no further, since that
  barrier needs every thread of the block. A schedule says, for each page and each slot,
  whether the slot's owner has already stored the next page's primitive and the next page's
  feature vector when the thread at hand reads the slot. \<open>in_step\<close> is the schedule in
  which no thread is ever that far ahead.
\<close>

type_synonym schedule = "int \<Rightarrow> int \<Rightarrow> bool \<times> bool"

definition in_step :: schedule where
  "in_step = (\<lambda>point_group_id in_group_idx. (False, False))"

text \<open>The shared arrays as the thread \<open>thread_id\<close> finds them when it reads the slot
  \<open>in_group_idx\<close> of the page \<open>point_group_id\<close>, \<open>sh\<close> being the arrays at the page's barrier:
  the slot's owner may have run lines 91 to 101 of the next round. A thread never
  finds its own slot overwritten, and nothing is stored after the last page.\<close>

definition seen ::
  "kernel_args \<Rightarrow> int \<Rightarrow> int \<Rightarrow> int \<Rightarrow> int \<Rightarrow> schedule \<Rightarrow> int \<Rightarrow> shared \<Rightarrow> int \<Rightarrow> shared" where
  "seen args tile_area end_offset num_point_groups thread_id sched point_group_id sh
     in_group_idx =
     (let group_offset_base = (point_group_id + 1) * tile_area;
          block_end_idx = end_offset - group_offset_base;
          block_start_idx = max (block_end_idx - tile_area) 0;
          stored = load_thread args block_end_idx block_start_idx in_group_idx sh;
          ahead = (point_group_id + 1 < num_point_groups \<and> in_group_idx \<noteq> thread_id)
      in \<lparr>tile_point =
            (if ahead \<and> fst (sched point_group_id in_group_idx)
             then tile_point stored else tile_point sh),
          tile_feature =
            (if ahead \<and> snd (sched point_group_id in_group_idx)
             then tile_feature stored else tile_feature sh)\<rparr>)"

text \<open>Lines 91 to 150: one round of the loop over the pages of the tile's range, as the
  thread \<open>thread_id\<close> runs it. The round loads the page into the shared arrays, passes the
  barrier, and walks the page, reading each slot as the schedule lets the thread find it.\<close>

definition point_group ::
  "Config \<Rightarrow> pdf_fun \<Rightarrow> kernel_args \<Rightarrow> int \<Rightarrow> schedule \<Rightarrow> ivec2 \<Rightarrow> int \<Rightarrow> int \<Rightarrow> int \<Rightarrow>
   vec \<Rightarrow> int \<Rightarrow> int \<Rightarrow> shared \<times> thread_state \<Rightarrow> error + shared \<times> thread_state" where
  "point_group config pdf args thread_id sched pixel start_offset end_offset last_point_idx
     grad_pixel_feature num_point_groups point_group_id s =
     (let tile_area = tile_size config * tile_size config;
          tile_point_count = end_offset - start_offset;
          group_offset_base = point_group_id * tile_area;
          block_end_idx = end_offset - group_offset_base;
          block_start_idx = max (block_end_idx - tile_area) 0;
          sh = load_page args tile_area block_end_idx block_start_idx (fst s);
          point_group_size = min tile_area (tile_point_count - group_offset_base)
      in bind_r (for_each
                   (\<lambda>in_group_idx.
                      process_point config pdf args pixel end_offset last_point_idx
                        grad_pixel_feature group_offset_base
                        (seen args tile_area end_offset num_point_groups thread_id sched
                           point_group_id sh in_group_idx)
                        in_group_idx)
                   (range_py point_group_size) (snd s))
           (\<lambda>st. Inr (sh, st)))"

text \<open>Lines 87 to 150: the loop over the pages.\<close>

definition backward_walk ::
  "Config \<Rightarrow> pdf_fun \<Rightarrow> kernel_args \<Rightarrow> int \<Rightarrow> schedule \<Rightarrow> ivec2 \<Rightarrow> int \<Rightarrow> int \<Rightarrow> int \<Rightarrow>
   vec \<Rightarrow> shared \<times> thread_state \<Rightarrow> error + shared \<times> thread_state" where
  "backward_walk config pdf args thread_id sched pixel start_offset end_offset last_point_idx
     grad_pixel_feature s =
     (let tile_area = tile_size config * tile_size config;
          tile_point_count = end_offset - start_offset;
          num_point_groups = (tile_point_count + (tile_area - 1)) div tile_area
      in for_each (point_group config pdf args thread_id sched pixel start_offset end_offset
                     last_point_idx grad_pixel_feature num_point_groups)
           (range_py num_point_groups) s)"

text \<open>Lines 57 to 159: one thread of the kernel, for the pixel \<open>(u, v)\<close> of the tile
  \<open>(tile_u, tile_v)\<close>, under its schedule. \<open>sh\<close> is what the block's shared arrays hold when
  the thread starts. \<^verbatim>\<open>accum_feature\<close> is set to the zero vector at line 63 and is not
  assigned again.\<close>

definition init_thread :: "'a buffers_scheme \<Rightarrow> real \<Rightarrow> thread_state" where
  "init_thread b accumulated_alpha =
     \<lparr>grad_points = grad_points b, grad_point_features = grad_point_features b,
      T_i = 1 - accumulated_alpha, w_i = [0, 0, 0]\<rparr>"

definition thread_body ::
  "Config \<Rightarrow> nat \<Rightarrow> pdf_fun \<Rightarrow> kernel_args \<Rightarrow> schedule \<Rightarrow> int \<Rightarrow> int \<times> int \<times> int \<times> int \<Rightarrow>
   shared \<times> kernel_state \<Rightarrow> error + shared \<times> kernel_state" where
  "thread_body config feature_size pdf args sched tiles_wide idx s =
     (let (tile_v, tile_u, v, u) = idx;
          ks = snd s;
          pixel = (tile_u * tile_size config + u, tile_v * tile_size config + v);
          tile_id = tile_u + tile_v * tiles_wide;
          thread_id = u + v * tile_size config;
          accum_feature = replicate feature_size 0;
          (start_offset, end_offset) = tile_overlap_ranges args tile_id;
          last_point_idx = image_last_valid ks (snd pixel, fst pixel);
          accumulated_alpha = image_alpha ks (snd pixel, fst pixel);
          grad_pixel_feature = grad_image_feature args (snd pixel, fst pixel)
      in bind_r (backward_walk config pdf args thread_id sched pixel start_offset end_offset
                   last_point_idx grad_pixel_feature (fst s, init_thread ks accumulated_alpha))
           (\<lambda>(sh, st).
              Inr (sh,
                   ks\<lparr>grad_points := grad_points st,
                      grad_point_features := grad_point_features st,
                      image_feature := (image_feature ks)((snd pixel, fst pixel) := accum_feature),
                      image_alpha := (image_alpha ks)((snd pixel, fst pixel) := 1 - T_i st),
                      image_last_valid :=
                        (image_last_valid ks)((snd pixel, fst pixel) := last_point_idx)\<rparr>)))"

text \<open>Lines 48 to 55: the kernel runs the thread body for every index of
  \<^verbatim>\<open>ti.ndrange(tiles_high, tiles_wide, tile_size, tile_size)\<close>, each thread under the
  schedule \<open>sched\<close> gives it. The gradient arrays pass from one thread to the next; the
  image is \<open>camera_height\<close> rows of \<open>camera_width\<close> pixels.\<close>

definition ndrange4 :: "int \<Rightarrow> int \<Rightarrow> int \<Rightarrow> int \<Rightarrow> (int \<times> int \<times> int \<times> int) list" where
  "ndrange4 a b c d =
     List.product (range_py a)
       (List.product (range_py b) (List.product (range_py c) (range_py d)))"

definition backward_kernel ::
  "Config \<Rightarrow> nat \<Rightarrow> pdf_fun \<Rightarrow> kernel_args \<Rightarrow> (int \<times> int \<times> int \<times> int \<Rightarrow> schedule) \<Rightarrow>
   int \<Rightarrow> int \<Rightarrow> shared \<times> kernel_state \<Rightarrow> error + shared \<times> kernel_state" where
  "backward_kernel config feature_size pdf args sched camera_height camera_width s =
     (let tiles_wide = camera_width div tile_size config;
          tiles_high = camera_height div tile_size config
      in for_each (\<lambda>idx. thread_body config feature_size pdf args (sched idx) tiles_wide idx)
           (ndrange4 tiles_high tiles_wide (tile_size config) (tile_size config)) s)"

text \<open>The list indices that the two nested loops of lines 90 and 108 compute at line 111,
  page by page, in the order of the loops.\<close>

definition point_group_indices :: "int \<Rightarrow> int \<Rightarrow> int \<Rightarrow> int \<Rightarrow> int list" where
  "point_group_indices tile_area start_offset end_offset point_group_id =
     (let tile_point_count = end_offset - start_offset;
          group_offset_base = point_group_id * tile_area;
          point_group_size = min tile_area (tile_point_count - group_offset_base)
      in map (\<lambda>in_group_idx. end_offset - (group_offset_base + in_group_idx) - 1)
           (range_py point_group_size))"

definition visited_pages :: "int \<Rightarrow> int \<Rightarrow> int \<Rightarrow> int list list" where
  "visited_pages tile_area start_offset end_offset =
     (let tile_point_count = end_offset - start_offset;
          num_point_groups = (tile_point_count + (tile_area - 1)) div tile_area
      in map (point_group_indices tile_area start_offset end_offset)
           (range_py num_point_groups))"

text \<open>The walk the spec describes, without pages and without shared arrays: the list
  indices of the range from the last to the first, each primitive read from the
  kernel's input arrays.\<close>

definition straight_walk ::
  "Config \<Rightarrow> pdf_fun \<Rightarrow> kernel_args \<Rightarrow> ivec2 \<Rightarrow> int \<Rightarrow> int \<Rightarrow> int \<Rightarrow> vec \<Rightarrow>
   thread_state \<Rightarrow> error + thread_state" where
  "straight_walk config pdf args pixel start_offset end_offset last_point_idx
     grad_pixel_feature st =
     for_each (\<lambda>k. blend_point config pdf args pixel last_point_idx grad_pixel_feature k
                  (points args (overlap_to_point args k))
                  (point_features args (overlap_to_point args k)))
       (rev (map (\<lambda>j. start_offset + int j) [0..<nat (end_offset - start_offset)])) st"

text \<open>The list entry whose data a thread finds when it reads the slot of the list index
  \<open>k\<close>: the entry \<open>k\<close> itself, or the entry \<open>k - tile_area\<close> that the slot's owner has already
  stored for the next page. \<open>ahead\<close> is the schedule's answer for one of the two arrays.\<close>

definition seen_entry ::
  "int \<Rightarrow> int \<Rightarrow> int \<Rightarrow> int \<Rightarrow> (int \<Rightarrow> int \<Rightarrow> bool) \<Rightarrow> int \<Rightarrow> int" where
  "seen_entry tile_area end_offset num_point_groups thread_id ahead k =
     (let point_group_offset = end_offset - 1 - k;
          point_group_id = point_group_offset div tile_area;
          in_group_idx = point_group_offset mod tile_area
      in if point_group_id + 1 < num_point_groups \<and> in_group_idx \<noteq> thread_id
            \<and> ahead point_group_id in_group_idx \<and> tile_area \<le> k
         then k - tile_area else k)"

section \<open>Padding and rendering\<close>

text \<open>\<^verbatim>\<open>pad_to_tile\<close> of \<^verbatim>\<open>renderer2d.py\<close>. The true division \<^verbatim>\<open>x / tile_size\<close> raises for a
  zero divisor; its quotient is the exact one here, which is what the double-precision
  quotient rounds up to as long as \<open>x\<close> is below \<open>2^53\<close>.\<close>

definition pad :: "int \<Rightarrow> int \<Rightarrow> error + int" where
  "pad tile_sz x =
     (if tile_sz = 0 then Inl ZeroDivisionError
      else Inr (\<lceil>real_of_int x / real_of_int tile_sz\<rceil> * tile_sz))"

definition pad_to_tile :: "int \<times> int \<Rightarrow> int \<Rightarrow> error + int \<times> int" where
  "pad_to_tile image_size tile_sz =
     bind_r (pad tile_sz (fst image_size))
       (\<lambda>a. bind_r (pad tile_sz (snd image_size)) (\<lambda>b. Inr (a, b)))"

text \<open>\<^verbatim>\<open>xs[:n]\<close>: the first \<open>n\<close> elements, or all but the last \<open>-n\<close> when \<open>n\<close> is negative.\<close>

definition py_slice_to :: "int \<Rightarrow> 'a list \<Rightarrow> 'a list" where
  "py_slice_to n xs = (if 0 \<le> n then take (nat n) xs else take (length xs - nat (- n)) xs)"

text \<open>\<^verbatim>\<open>render_gaussians\<close> of \<^verbatim>\<open>renderer2d.py\<close>. \<^verbatim>\<open>map_to_tiles\<close> and \<^verbatim>\<open>rasterize\<close> are not among
  the sources: the parameter \<open>rasterize\<close> stands for the two calls of lines 43 to 50 on the
  projected primitives, as a function of the image size and the configuration they are
  given, and its result is the image as a list of rows. An omitted \<^verbatim>\<open>tile_size\<close> is 16.\<close>

definition render_gaussians ::
  "(int \<times> int \<Rightarrow> Config \<Rightarrow> 'a list list) \<Rightarrow> int \<times> int \<Rightarrow> int option \<Rightarrow>
   error + 'a list list" where
  "render_gaussians rasterize image_size tile_size_arg =
     (let tile_sz = (case tile_size_arg of None \<Rightarrow> 16 | Some v \<Rightarrow> v)
      in bind_r (pad_to_tile image_size tile_sz)
           (\<lambda>padded.
              let raster_config = Config_init (Some tile_sz) None None None;
                  image = rasterize padded raster_config;
                  (w, h) = image_size
              in Inr (map (py_slice_to w) (py_slice_to h image))))"

section \<open>The forward test, and a small scene\<close>

text \<open>
  Modelled from the spec: the skip test of the forward compositor (step 2b of its
  algorithm), whose kernel is not among the sources. A primitive is skipped when its
  raw alpha, opacity times density, is below \<open>alpha_threshold\<close>.
\<close>

definition forward_skips :: "Config \<Rightarrow> real \<Rightarrow> real \<Rightarrow> bool" where
  "forward_skips config opacity density = (opacity * density < alpha_threshold config)"

text \<open>A scene for worked examples: tiles of 2 by 2 pixels, a density function that
  returns the first conic coefficient as the density, five list entries of opacity 1 of
  which entry 1 has a density below the threshold, and arrays of three-component
  feature vectors.\<close>

definition ex_config :: Config where
  "ex_config = Config_init (Some 2) None None None"

definition ex_pdf :: pdf_fun where
  "ex_pdf xy m c = (fst c, (fst xy - fst m, snd xy - snd m), (1, 0, 1))"

definition ex_point :: "real \<Rightarrow> Gaussian2D" where
  "ex_point d = \<lparr>uv = (0, 0), uv_conic = (d, 0, 0), point_alpha = 1\<rparr>"

definition ex_args :: kernel_args where
  "ex_args =
     \<lparr>points = (\<lambda>i. if i = 1 then ex_point (1 / 1000) else ex_point (1 / 2)),
      point_features = (\<lambda>i. [1, 0, 0]),
      tile_overlap_ranges = (\<lambda>t. (0, 5)),
      overlap_to_point = (\<lambda>i. i),
      grad_image_feature = (\<lambda>p. [1, 1, 1])\<rparr>"

definition ex_state :: thread_state where
  "ex_state =
     \<lparr>grad_points = (\<lambda>i. \<lparr>uv = (0, 0), uv_conic = (0, 0, 0), point_alpha = 0\<rparr>),
      grad_point_features = (\<lambda>i. [0, 0, 0]),
      T_i = 1 / 4, w_i = [0, 0, 0]\<rparr>"

definition ex_shared :: shared where
  "ex_shared = \<lparr>tile_point = (\<lambda>i. ex_point 0), tile_feature = (\<lambda>i. [])\<rparr>"

definition ex_kernel_state :: kernel_state where
  "ex_kernel_state =
     \<lparr>grad_points = (\<lambda>i. \<lparr>uv = (0, 0), uv_conic = (0, 0, 0), point_alpha = 0\<rparr>),
      grad_point_features = (\<lambda>i. [0, 0, 0]),
      image_feature = (\<lambda>p. [1, 0, 0]),
      image_alpha = (\<lambda>p. 15 / 16),
      image_last_valid = (\<lambda>p. 5)\<rparr>"

text \<open>A scene for the missing barrier: the same five entries, entry 0 with the density
  1/4, and a schedule in which the owner of slot 0 has stored the second page's entry
  when another thread reads slot 0 of the first page.\<close>

definition race_args :: kernel_args where
  "race_args = ex_args\<lparr>points := (\<lambda>i. if i = 0 then ex_point (1 / 4) else ex_point (1 / 2))\<rparr>"

definition race_sched :: schedule where
  "race_sched = (\<lambda>point_group_id in_group_idx.
     (point_group_id = 0 \<and> in_group_idx = 0, point_group_id = 0 \<and> in_group_idx = 0))"

section \<open>Auxiliary facts\<close>

lemma bind_r_simps [simp]: "bind_r (Inr x) f = f x" "bind_r (Inl e) f = Inl e"
  by (simp_all add: bind_r_def)

lemma vbinop_eq [simp]: "length a = length b \<Longrightarrow> vbinop f a b = Inr (map2 f a b)"
  by (simp add: vbinop_def)

lemma vbinop_mismatch [simp]: "length a \<noteq> length b \<Longrightarrow> vbinop f a b = Inl ShapeMismatch"
  by (simp add: vbinop_def)

lemma length_vscale [simp]: "length (vscale v s) = length v" by (simp add: vscale_def)
lemma length_vdivs [simp]: "length (vdivs v s) = length v" by (simp add: vdivs_def)
lemma length_svscale [simp]: "length (svscale s v) = length v" by (simp add: svscale_def)

lemma blend_point_beyond:
  "last_point_idx \<le> point_index \<Longrightarrow>
   blend_point config pdf args pixel last_point_idx grad point_index g feature st = Inr st"
  by (simp add: blend_point_def)

lemma blend_point_below_threshold:
  assumes "pdf (real_of_int (fst pixel) + 1 / 2, real_of_int (snd pixel) + 1 / 2)
             (uv g) (uv_conic g) = (gaussian_alpha, dp_dmean, dp_dconic)"
      and "point_alpha g * gaussian_alpha < alpha_threshold config"
  shows "blend_point config pdf args pixel last_point_idx grad point_index g feature st = Inr st"
  using assms by (simp add: blend_point_def unpack_def)

lemma blend_point_contributes:
  assumes "point_index < last_point_idx"
      and "pdf (real_of_int (fst pixel) + 1 / 2, real_of_int (snd pixel) + 1 / 2)
             (uv g) (uv_conic g) = (gaussian_alpha, dp_dmean, dp_dconic)"
      and "alpha_threshold config \<le> point_alpha g * gaussian_alpha"
      and "a = min (point_alpha g * gaussian_alpha) (clamp_max_alpha config)"
      and "T = T_i st / (1 - a)"
      and "off = overlap_to_point args point_index"
      and "length feature = length (w_i st)"
      and "length grad = length feature"
      and "length (grad_point_features st off) = length grad"
  shows "blend_point config pdf args pixel last_point_idx grad point_index g feature st =
     Inr (st\<lparr>grad_points := (grad_points st)(off :=
               gadd (grad_points st off)
                 (gscale (sum_list (map2 (*) (map2 (-) (vscale feature T) (vdivs (w_i st) (1 - a))) grad))
                    (pack (scale2 (point_alpha g) dp_dmean) (scale3 (point_alpha g) dp_dconic)
                       gaussian_alpha))),
             grad_point_features := (grad_point_features st)(off :=
               map2 (+) (grad_point_features st off) (svscale (a * T) grad)),
             T_i := T,
             w_i := map2 (+) (w_i st) (vscale (vscale feature a) T)\<rparr>)"
  using assms
  by (simp add: blend_point_def unpack_def alpha_grad_from_feature_def vadd_def vsub_def vmul_def
      Let_def)

lemma for_each_append:
  "for_each body (xs @ ys) s = bind_r (for_each body xs s) (for_each body ys)"
  by (induction xs arbitrary: s) (auto simp: bind_r_def split: sum.splits)

lemma for_each_map:
  "for_each body (map f xs) s = for_each (\<lambda>x. body (f x)) xs s"
  by (induction xs arbitrary: s) (auto simp: bind_r_def split: sum.splits)

lemma for_each_cong:
  "(\<And>x s. x \<in> set xs \<Longrightarrow> body x s = body' x s) \<Longrightarrow> for_each body xs s = for_each body' xs s"
  by (induction xs arbitrary: s) (auto simp: bind_r_def split: sum.splits)

lemma load_fold_point:
  "tile_point (fold (load_thread args be bs) xs sh) i =
     (if i \<in> set xs \<and> bs \<le> be - i - 1
      then points args (overlap_to_point args (be - i - 1)) else tile_point sh i)"
  by (induction xs arbitrary: sh) (auto simp: load_thread_def Let_def)

lemma load_fold_feature:
  "tile_feature (fold (load_thread args be bs) xs sh) i =
     (if i \<in> set xs \<and> bs \<le> be - i - 1
      then point_features args (overlap_to_point args (be - i - 1)) else tile_feature sh i)"
  by (induction xs arbitrary: sh) (auto simp: load_thread_def Let_def)

lemma set_range_py: "set (range_py n) = {i. 0 \<le> i \<and> i < n}"
proof -
  have "i \<in> int ` {0..<nat n} \<longleftrightarrow> 0 \<le> i \<and> i < n" for i
  proof
    assume "i \<in> int ` {0..<nat n}" then show "0 \<le> i \<and> i < n" by auto
  next
    assume h: "0 \<le> i \<and> i < n"
    then have "i = int (nat i)" "nat i \<in> {0..<nat n}" by auto
    then show "i \<in> int ` {0..<nat n}" by (rule image_eqI)
  qed
  then show ?thesis by (auto simp: range_py_def)
qed

lemma load_page_point:
  "0 \<le> i \<Longrightarrow> i < tile_area \<Longrightarrow> bs \<le> be - i - 1 \<Longrightarrow>
   tile_point (load_page args tile_area be bs sh) i = points args (overlap_to_point args (be - i - 1))"
  by (simp add: load_page_def load_fold_point set_range_py)

lemma load_page_feature:
  "0 \<le> i \<Longrightarrow> i < tile_area \<Longrightarrow> bs \<le> be - i - 1 \<Longrightarrow>
   tile_feature (load_page args tile_area be bs sh) i =
     point_features args (overlap_to_point args (be - i - 1))"
  by (simp add: load_page_def load_fold_feature set_range_py)

lemma concat_pages_nat:
  "0 < a \<Longrightarrow> concat (map (\<lambda>g. [g * a ..< min (g * a + a) n]) [0..<G]) = [0..<min (G * a) (n::nat)]"
proof (induction G)
  case 0
  show ?case by simp
next
  case (Suc G)
  show ?case
  proof (cases "G * a \<le> n")
    case True
    then obtain k where k: "min (G * a + a) n = G * a + k"
      by (metis le_add1 le_iff_add min.boundedI)
    from True have "[0..<min (G * a) n] @ [G * a ..< min (G * a + a) n] = [0..<min (G * a + a) n]"
      unfolding k by (simp add: min_absorb1 upt_add_eq_append [symmetric])
    then show ?thesis using Suc by (simp add: add.commute)
  next
    case False
    then show ?thesis using Suc by (simp add: min_absorb2 add.commute)
  qed
qed

lemma point_group_indices_nat:
  assumes "start_offset \<le> end_offset"
  shows "point_group_indices (int a) start_offset end_offset (int g) =
     map (\<lambda>k. end_offset - int k - 1) [g * a ..< min (g * a + a) (nat (end_offset - start_offset))]"
proof -
  let ?n = "nat (end_offset - start_offset)"
  have m: "int g * int a = int (g * a)" by simp
  have len: "nat (min (int a) (end_offset - start_offset - int g * int a)) = min (g * a + a) ?n - g * a"
    unfolding m using assms by linarith
  have upt: "[m..<k] = [m..<k - m + m]" for m k :: nat
    by (cases "m \<le> k") simp_all
  have "map (\<lambda>k. end_offset - int k - 1) [g * a ..< min (g * a + a) ?n] =
        map (\<lambda>k. end_offset - int k - 1) (map (\<lambda>i. i + g * a) [0..<min (g * a + a) ?n - g * a])"
    unfolding map_add_upt by (rule arg_cong [OF upt])
  also have "\<dots> = map (\<lambda>i. end_offset - (int g * int a + int i) - 1) [0..<min (g * a + a) ?n - g * a]"
    by (simp add: algebra_simps)
  finally show ?thesis
    by (simp add: point_group_indices_def range_py_def Let_def len o_def)
qed

lemma num_groups_nat:
  assumes "0 < a" "start_offset \<le> end_offset"
  shows "nat ((end_offset - start_offset + (int a - 1)) div int a) =
         (nat (end_offset - start_offset) + (a - 1)) div a"
proof -
  have "end_offset - start_offset + (int a - 1) = int (nat (end_offset - start_offset) + (a - 1))"
    using assms by (simp add: of_nat_diff)
  then show ?thesis by (simp only: zdiv_int [symmetric] nat_int)
qed

lemma cover_nat: "0 < a \<Longrightarrow> min (((n + (a - 1)) div a) * a) n = (n::nat)"
proof -
  assume a: "0 < a"
  have "n + (a - 1) < ((n + (a - 1)) div a) * a + a"
    using a by (metis add.commute dividend_less_times_div mult.commute)
  then have "n \<le> ((n + (a - 1)) div a) * a" using a by linarith
  then show ?thesis by simp
qed

lemma visited_concat:
  assumes "0 < tile_area" "start_offset \<le> end_offset"
  shows "concat (visited_pages tile_area start_offset end_offset) =
         map (\<lambda>k. end_offset - int k - 1) [0..<nat (end_offset - start_offset)]"
proof -
  define a where "a = nat tile_area"
  have ta: "tile_area = int a" and a: "0 < a" using assms(1) by (simp_all add: a_def)
  let ?n = "nat (end_offset - start_offset)"
  let ?G = "(?n + (a - 1)) div a"
  have "concat (visited_pages tile_area start_offset end_offset) =
        concat (map (\<lambda>g. point_group_indices (int a) start_offset end_offset (int g)) [0..<?G])"
    by (simp add: visited_pages_def Let_def range_py_def ta num_groups_nat [OF a assms(2)] o_def)
  also have "\<dots> = concat (map (\<lambda>g. map (\<lambda>k. end_offset - int k - 1) [g * a ..< min (g * a + a) ?n]) [0..<?G])"
    by (simp add: point_group_indices_nat [OF assms(2)])
  also have "\<dots> = map (\<lambda>k. end_offset - int k - 1) (concat (map (\<lambda>g. [g * a ..< min (g * a + a) ?n]) [0..<?G]))"
    by (simp add: map_concat o_def)
  also have "\<dots> = map (\<lambda>k. end_offset - int k - 1) [0..<?n]"
    using cover_nat [OF a, of ?n] by (simp add: concat_pages_nat [OF a])
  finally show ?thesis .
qed

lemma alpha_grad_sum:
  assumes "length w = length feature" "length grad = length feature"
  shows "sum_list (map2 (*) (map2 (-) (vscale feature T) (vdivs w d)) grad) =
         (\<Sum>k<length feature. (feature ! k * T - w ! k / d) * grad ! k)"
  using assms by (simp add: sum_list_sum_nth vscale_def vdivs_def atLeast0LessThan)

lemma rev_range:
  assumes "start_offset \<le> end_offset"
  shows "rev (map (\<lambda>j. start_offset + int j) [0..<nat (end_offset - start_offset)]) =
         map (\<lambda>k. end_offset - int k - 1) [0..<nat (end_offset - start_offset)]"
proof (rule nth_equalityI)
  show "length (rev (map (\<lambda>j. start_offset + int j) [0..<nat (end_offset - start_offset)])) =
        length (map (\<lambda>k. end_offset - int k - 1) [0..<nat (end_offset - start_offset)])"
    by simp
next
  fix i
  assume "i < length (rev (map (\<lambda>j. start_offset + int j) [0..<nat (end_offset - start_offset)]))"
  then have i: "i < nat (end_offset - start_offset)" by simp
  then show "rev (map (\<lambda>j. start_offset + int j) [0..<nat (end_offset - start_offset)]) ! i =
        map (\<lambda>k. end_offset - int k - 1) [0..<nat (end_offset - start_offset)] ! i"
    using assms by (simp add: rev_nth)
qed

lemma blend_point_total:
  assumes "length (w_i st) = n" "\<forall>i. length (grad_point_features st i) = n"
      and "length feature = n" "length grad = n"
  shows "\<exists>st'. blend_point config pdf args pixel last_point_idx grad point_index g feature st = Inr st'
           \<and> length (w_i st') = n \<and> (\<forall>i. length (grad_point_features st' i) = n)"
proof -
  obtain ga dm dc where pdf:
    "pdf (real_of_int (fst pixel) + 1 / 2, real_of_int (snd pixel) + 1 / 2) (uv g) (uv_conic g)
       = (ga, dm, dc)"
    by (metis prod_cases3)
  consider "last_point_idx \<le> point_index"
    | "point_index < last_point_idx" "point_alpha g * ga < alpha_threshold config"
    | "point_index < last_point_idx" "alpha_threshold config \<le> point_alpha g * ga"
    by linarith
  then show ?thesis
  proof cases
    case 1
    then show ?thesis using assms by (simp add: blend_point_beyond)
  next
    case 2
    then show ?thesis using assms by (simp add: blend_point_below_threshold [where pdf = pdf and pixel = pixel and g = g, OF pdf])
  next
    case 3
    have "length feature = length (w_i st)" "length grad = length feature"
      "length (grad_point_features st (overlap_to_point args point_index)) = length grad"
      using assms by simp_all
    from blend_point_contributes [where pdf = pdf and pixel = pixel and g = g, OF 3(1) pdf 3(2) refl refl refl this]
    show ?thesis using assms by simp
  qed
qed

lemma for_each_invariant:
  assumes "\<And>x s. x \<in> set xs \<Longrightarrow> P s \<Longrightarrow> \<exists>s'. body x s = Inr s' \<and> P s'" "P s"
  shows "\<exists>s'. for_each body xs s = Inr s' \<and> P s'"
  using assms
proof (induction xs arbitrary: s)
  case Nil
  then show ?case by simp
next
  case (Cons x xs)
  from Cons.prems(1) [of x s] Cons.prems(2) obtain s1 where s1: "body x s = Inr s1" "P s1"
    by auto
  have "\<exists>s'. for_each body xs s1 = Inr s' \<and> P s'"
    by (rule Cons.IH) (use Cons.prems(1) s1 in auto)
  then show ?case using s1 by simp
qed

lemma pad_least_multiple:
  assumes "0 < t"
  shows "\<exists>p. pad t x = Inr p \<and> t dvd p \<and> x \<le> p \<and> (\<forall>m. t dvd m \<and> x \<le> m \<longrightarrow> p \<le> m)"
proof -
  let ?c = "\<lceil>real_of_int x / real_of_int t\<rceil>"
  have pad: "pad t x = Inr (?c * t)" using assms by (simp add: pad_def)
  have tpos: "0 < real_of_int t" using assms by simp
  have "real_of_int x / real_of_int t \<le> real_of_int ?c" by (rule le_of_int_ceiling)
  then have "real_of_int x \<le> real_of_int ?c * real_of_int t"
    by (rule pos_divide_le_eq [OF tpos, THEN iffD1])
  then have "real_of_int x \<le> real_of_int (?c * t)" by simp
  then have ge: "x \<le> ?c * t" by linarith
  have least: "?c * t \<le> m" if "t dvd m \<and> x \<le> m" for m
  proof -
    from that obtain k where k: "m = t * k" by (auto elim: dvdE)
    from that k have "real_of_int x \<le> real_of_int k * real_of_int t"
      by (metis mult.commute of_int_le_iff of_int_mult)
    then have "real_of_int x / real_of_int t \<le> real_of_int k"
      using assms by (simp add: pos_divide_le_eq)
    then have "?c \<le> k" by (simp add: ceiling_le_iff)
    then show ?thesis using assms k by (simp add: mult.commute)
  qed
  show ?thesis using pad ge least by auto
qed

lemma ex_pdf_at:
  "ex_pdf (real_of_int (fst (0::int, 0::int)) + 1 / 2, real_of_int (snd (0::int, 0::int)) + 1 / 2)
     (uv (ex_point d)) (uv_conic (ex_point d)) = (d, (1 / 2, 1 / 2), (1, 0, 1))"
  by (simp add: ex_pdf_def ex_point_def)

lemma ex_threshold: "alpha_threshold ex_config \<le> point_alpha (ex_point (1 / 2)) * (1 / 2)"
  by (simp add: ex_config_def Config_init_def ex_point_def)

lemma ex_clamp:
  "(1 / 2 :: real) = min (point_alpha (ex_point (1 / 2)) * (1 / 2)) (clamp_max_alpha ex_config)"
  by (simp add: ex_config_def Config_init_def ex_point_def)

lemma ex_offset: "(0::int) = overlap_to_point ex_args 0"
  by (simp add: ex_args_def)

lemma ex_lengths:
  "length [1, 0, 0 :: real] = length (w_i ex_state)"
  "length [1, 1, 1 :: real] = length [1, 0, 0 :: real]"
  "length (grad_point_features ex_state 0) = length [1, 1, 1 :: real]"
  by (simp_all add: ex_state_def)

lemma ex_walk:
  "\<exists>st'. straight_walk ex_config ex_pdf ex_args (0, 0) 0 5 5 [1, 1, 1]
           (init_thread ex_kernel_state (15 / 16)) = Inr st' \<and> T_i st' = 1"
  by (simp add: straight_walk_def blend_point_def unpack_def alpha_grad_from_feature_def
      vadd_def vsub_def vmul_def vscale_def vdivs_def svscale_def Let_def upt_conv_Cons
      init_thread_def ex_kernel_state_def ex_args_def ex_point_def ex_pdf_def ex_config_def
      Config_init_def)

lemma decompose_unique:
  fixes ts :: int
  assumes "0 < ts" "0 \<le> v" "v < ts" "0 \<le> v'" "v' < ts" "a * ts + v = a' * ts + v'"
  shows "a = a' \<and> v = v'"
proof -
  have "(a * ts + v) div ts = a" using assms(1,2,3) by (simp add: div_pos_pos_trivial)
  moreover have "(a' * ts + v') div ts = a'" using assms(1,4,5) by (simp add: div_pos_pos_trivial)
  ultimately have "a = a'" using assms(6) by simp
  then show ?thesis using assms(6) by simp
qed

lemma distinct_range_py: "distinct (range_py n)"
  by (simp add: range_py_def distinct_map inj_on_def)

lemma set_ndrange4:
  "set (ndrange4 a b c d) =
     {(i, j, k, l). 0 \<le> i \<and> i < a \<and> 0 \<le> j \<and> j < b \<and> 0 \<le> k \<and> k < c \<and> 0 \<le> l \<and> l < d}"
  by (auto simp: ndrange4_def set_range_py)

lemma distinct_ndrange4: "distinct (ndrange4 a b c d)"
  by (simp add: ndrange4_def distinct_product distinct_range_py)

lemma distinct_pixels:
  assumes "0 < ts"
  shows "distinct (map (\<lambda>(tile_v, tile_u, v, u). (tile_v * ts + v, tile_u * ts + u))
           (ndrange4 a b ts ts))"
proof -
  have "inj_on (\<lambda>(tile_v, tile_u, v, u). (tile_v * ts + v, tile_u * ts + u))
          (set (ndrange4 a b ts ts))"
  proof (rule inj_onI)
    fix x y
    assume x: "x \<in> set (ndrange4 a b ts ts)" and y: "y \<in> set (ndrange4 a b ts ts)"
      and eq: "(\<lambda>(tile_v, tile_u, v, u). (tile_v * ts + v, tile_u * ts + u)) x =
               (\<lambda>(tile_v, tile_u, v, u). (tile_v * ts + v, tile_u * ts + u)) y"
    obtain tv tu v u where xx: "x = (tv, tu, v, u)" by (metis prod_cases4)
    obtain tv' tu' v' u' where yy: "y = (tv', tu', v', u')" by (metis prod_cases4)
    from x y have r: "0 \<le> v" "v < ts" "0 \<le> u" "u < ts" "0 \<le> v'" "v' < ts" "0 \<le> u'" "u' < ts"
      by (simp_all add: xx yy set_ndrange4)
    from eq have e: "tv * ts + v = tv' * ts + v'" "tu * ts + u = tu' * ts + u'"
      by (simp_all add: xx yy)
    from decompose_unique [OF assms r(1,2,5,6) e(1)] decompose_unique [OF assms r(3,4,7,8) e(2)]
    show "x = y" by (simp add: xx yy)
  qed
  then show ?thesis by (simp add: distinct_map distinct_ndrange4)
qed

lemma blend_point_T:
  assumes "blend_point config pdf args pixel last_point_idx grad k g feature s1 = Inr s1'"
      and "blend_point config pdf args pixel last_point_idx grad k g feature s2 = Inr s2'"
      and "T_i s1 = T_i s2"
  shows "T_i s1' = T_i s2'"
  using assms
  by (auto simp: blend_point_def Let_def bind_r_def unpack_def
      split: if_splits sum.splits prod.splits)

lemma for_each_related:
  assumes "\<And>x s1 s2 s1' s2'. body x s1 = Inr s1' \<Longrightarrow> body x s2 = Inr s2' \<Longrightarrow> R s1 s2 \<Longrightarrow> R s1' s2'"
      and "for_each body xs s1 = Inr s1'" "for_each body xs s2 = Inr s2'" "R s1 s2"
  shows "R s1' s2'"
  using assms(2,3,4)
proof (induction xs arbitrary: s1 s2)
  case Nil
  then show ?case by simp
next
  case (Cons x xs)
  from Cons.prems(1) obtain t1 where t1: "body x s1 = Inr t1" "for_each body xs t1 = Inr s1'"
    by (cases "body x s1") auto
  from Cons.prems(2) obtain t2 where t2: "body x s2 = Inr t2" "for_each body xs t2 = Inr s2'"
    by (cases "body x s2") auto
  from assms(1) [OF t1(1) t2(1) Cons.prems(3)] have "R t1 t2" .
  from Cons.IH [OF t1(2) t2(2) this] show ?case .
qed

lemma straight_walk_T:
  assumes "straight_walk config pdf args pixel start_offset end_offset last_point_idx grad s1
             = Inr s1'"
      and "straight_walk config pdf args pixel start_offset end_offset last_point_idx grad s2
             = Inr s2'"
      and "T_i s1 = T_i s2"
  shows "T_i s1' = T_i s2'"
  using assms unfolding straight_walk_def
  by (rule for_each_related [where R = "\<lambda>a b. T_i a = T_i b", rotated 1]) (rule blend_point_T)

lemma slot_of_index:
  fixes ta :: int
  assumes "0 < ta" "0 \<le> i" "i < ta"
  shows "(g * ta + i) div ta = g" "(g * ta + i) mod ta = i"
  using assms by (simp_all add: div_pos_pos_trivial)

lemma load_thread_own:
  "tile_point (load_thread args be bs i sh) i =
     (if bs \<le> be - i - 1 then points args (overlap_to_point args (be - i - 1))
      else tile_point sh i)"
  "tile_feature (load_thread args be bs i sh) i =
     (if bs \<le> be - i - 1 then point_features args (overlap_to_point args (be - i - 1))
      else tile_feature sh i)"
  by (simp_all add: load_thread_def Let_def)

lemma seen_entry_eq:
  assumes ta: "0 < tile_area" and i: "0 \<le> i" "i < tile_area"
      and k: "k = end_offset - (g * tile_area + i) - 1"
  shows "seen_entry tile_area end_offset n thread_id ahead k =
           (if g + 1 < n \<and> i \<noteq> thread_id \<and> ahead g i \<and> tile_area \<le> k
            then k - tile_area else k)"
proof -
  have off: "end_offset - 1 - k = g * tile_area + i" using k by simp
  have dm: "(end_offset - 1 - k) div tile_area = g" "(end_offset - 1 - k) mod tile_area = i"
    unfolding off by (rule slot_of_index [OF ta i])+
  show ?thesis by (simp only: seen_entry_def Let_def dm)
qed

lemma seen_slot:
  assumes ta: "0 < tile_area" and i: "0 \<le> i" "i < tile_area"
      and k: "k = end_offset - (g * tile_area + i) - 1"
  shows "tile_point (seen args tile_area end_offset n thread_id sched g sh i) i =
           (if seen_entry tile_area end_offset n thread_id (\<lambda>g i. fst (sched g i)) k = k
            then tile_point sh i
            else points args (overlap_to_point args (k - tile_area)))"
    and "tile_feature (seen args tile_area end_offset n thread_id sched g sh i) i =
           (if seen_entry tile_area end_offset n thread_id (\<lambda>g i. snd (sched g i)) k = k
            then tile_feature sh i
            else point_features args (overlap_to_point args (k - tile_area)))"
proof -
  define be where "be = end_offset - (g + 1) * tile_area"
  have idx: "be - i - 1 = k - tile_area" using k by (simp add: be_def algebra_simps)
  have "be - tile_area \<le> k - tile_area" using idx i by linarith
  then have guard: "max (be - tile_area) 0 \<le> k - tile_area \<longleftrightarrow> tile_area \<le> k" by linarith
  have ne: "k - tile_area \<noteq> k" using ta by simp
  have p: "tile_point (load_thread args be (max (be - tile_area) 0) i sh) i =
      (if tile_area \<le> k then points args (overlap_to_point args (k - tile_area))
       else tile_point sh i)"
    by (simp only: load_thread_own idx guard)
  have f: "tile_feature (load_thread args be (max (be - tile_area) 0) i sh) i =
      (if tile_area \<le> k then point_features args (overlap_to_point args (k - tile_area))
       else tile_feature sh i)"
    by (simp only: load_thread_own idx guard)
  show "tile_point (seen args tile_area end_offset n thread_id sched g sh i) i =
           (if seen_entry tile_area end_offset n thread_id (\<lambda>g i. fst (sched g i)) k = k
            then tile_point sh i
            else points args (overlap_to_point args (k - tile_area)))"
    unfolding seen_entry_eq [OF ta i k] seen_def Let_def be_def [symmetric]
    using ne by (simp add: p)
  show "tile_feature (seen args tile_area end_offset n thread_id sched g sh i) i =
           (if seen_entry tile_area end_offset n thread_id (\<lambda>g i. snd (sched g i)) k = k
            then tile_feature sh i
            else point_features args (overlap_to_point args (k - tile_area)))"
    unfolding seen_entry_eq [OF ta i k] seen_def Let_def be_def [symmetric]
    using ne by (simp add: f)
qed

lemma seen_entry_cases:
  "seen_entry tile_area end_offset n thread_id ahead k = k
   \<or> seen_entry tile_area end_offset n thread_id ahead k = k - tile_area"
  by (simp add: seen_entry_def Let_def)

lemma seen_entry_in_step [simp]:
  "seen_entry tile_area end_offset n thread_id (\<lambda>g i. False) k = k"
  by (simp add: seen_entry_def Let_def)

lemma point_group_seen:
  assumes "0 < tile_size config" "0 \<le> g" "0 \<le> start_offset"
  shows "\<exists>sh'. point_group config pdf args thread_id sched pixel start_offset end_offset
                 last_point_idx grad n g (sh, st) =
     bind_r (for_each (\<lambda>k. blend_point config pdf args pixel last_point_idx grad k
       (points args (overlap_to_point args
          (seen_entry (tile_size config * tile_size config) end_offset n thread_id
             (\<lambda>g i. fst (sched g i)) k)))
       (point_features args (overlap_to_point args
          (seen_entry (tile_size config * tile_size config) end_offset n thread_id
             (\<lambda>g i. snd (sched g i)) k))))
        (point_group_indices (tile_size config * tile_size config) start_offset end_offset g) st)
       (\<lambda>st'. Inr (sh', st'))"
proof -
  let ?ta = "tile_size config * tile_size config"
  let ?base = "g * ?ta"
  let ?be = "end_offset - ?base"
  let ?bs = "max (?be - ?ta) 0"
  let ?sh = "load_page args ?ta ?be ?bs sh"
  let ?n = "min ?ta (end_offset - start_offset - ?base)"
  let ?G = "\<lambda>k. points args (overlap_to_point args
          (seen_entry ?ta end_offset n thread_id (\<lambda>g i. fst (sched g i)) k))"
  let ?F = "\<lambda>k. point_features args (overlap_to_point args
          (seen_entry ?ta end_offset n thread_id (\<lambda>g i. snd (sched g i)) k))"
  have ta: "0 < ?ta" using assms(1) by simp
  have body: "process_point config pdf args pixel end_offset last_point_idx grad ?base
                (seen args ?ta end_offset n thread_id sched g ?sh i) i s =
      blend_point config pdf args pixel last_point_idx grad (end_offset - (?base + i) - 1)
       (?G (end_offset - (?base + i) - 1)) (?F (end_offset - (?base + i) - 1)) s"
    if "i \<in> set (range_py ?n)" for i s
  proof -
    let ?k = "end_offset - (?base + i) - 1"
    from that have i: "0 \<le> i" "i < ?ta" "i < end_offset - start_offset - ?base"
      by (auto simp: set_range_py)
    have le: "?bs \<le> ?be - i - 1" using i assms(3) by linarith
    have eq: "?be - i - 1 = ?k" by simp
    have cur: "tile_point ?sh i = points args (overlap_to_point args ?k)"
      "tile_feature ?sh i = point_features args (overlap_to_point args ?k)"
      using load_page_point [OF i(1) i(2) le, of args sh]
        load_page_feature [OF i(1) i(2) le, of args sh]
      by (simp_all only: eq)
    have p: "tile_point (seen args ?ta end_offset n thread_id sched g ?sh i) i = ?G ?k"
      unfolding seen_slot(1) [OF ta i(1) i(2) refl] cur
      using seen_entry_cases [of ?ta end_offset n thread_id "\<lambda>g i. fst (sched g i)" ?k]
      by auto
    have f: "tile_feature (seen args ?ta end_offset n thread_id sched g ?sh i) i = ?F ?k"
      unfolding seen_slot(2) [OF ta i(1) i(2) refl] cur
      using seen_entry_cases [of ?ta end_offset n thread_id "\<lambda>g i. snd (sched g i)" ?k]
      by auto
    show ?thesis unfolding process_point_def Let_def p f ..
  qed
  have "for_each (\<lambda>i. process_point config pdf args pixel end_offset last_point_idx grad ?base
                          (seen args ?ta end_offset n thread_id sched g ?sh i) i)
          (range_py ?n) st =
        for_each (\<lambda>k. blend_point config pdf args pixel last_point_idx grad k (?G k) (?F k))
          (point_group_indices ?ta start_offset end_offset g) st"
    unfolding point_group_indices_def Let_def for_each_map
    by (rule for_each_cong) (rule body)
  then show ?thesis
    unfolding point_group_def Let_def by (intro exI [of _ ?sh]) simp
qed

lemma walk_pages_seen:
  assumes "0 < tile_size config" "0 \<le> start_offset" "\<forall>g\<in>set gs. 0 \<le> g"
  shows "\<exists>sh'. for_each (point_group config pdf args thread_id sched pixel start_offset end_offset
                           last_point_idx grad n) gs (sh, st) =
     bind_r (for_each (\<lambda>k. blend_point config pdf args pixel last_point_idx grad k
       (points args (overlap_to_point args
          (seen_entry (tile_size config * tile_size config) end_offset n thread_id
             (\<lambda>g i. fst (sched g i)) k)))
       (point_features args (overlap_to_point args
          (seen_entry (tile_size config * tile_size config) end_offset n thread_id
             (\<lambda>g i. snd (sched g i)) k))))
        (concat (map (point_group_indices (tile_size config * tile_size config)
                        start_offset end_offset) gs)) st)
       (\<lambda>st'. Inr (sh', st'))"
  using assms(3)
proof (induction gs arbitrary: sh st)
  case Nil
  show ?case by simp
next
  case (Cons g gs)
  let ?body = "\<lambda>k. blend_point config pdf args pixel last_point_idx grad k
       (points args (overlap_to_point args
          (seen_entry (tile_size config * tile_size config) end_offset n thread_id
             (\<lambda>g i. fst (sched g i)) k)))
       (point_features args (overlap_to_point args
          (seen_entry (tile_size config * tile_size config) end_offset n thread_id
             (\<lambda>g i. snd (sched g i)) k)))"
  let ?P = "point_group_indices (tile_size config * tile_size config) start_offset end_offset"
  let ?pg = "point_group config pdf args thread_id sched pixel start_offset end_offset
               last_point_idx grad n"
  from Cons.prems have g: "0 \<le> g" and gs: "\<forall>g\<in>set gs. 0 \<le> g" by auto
  obtain sh1 where one:
    "?pg g (sh, st) = bind_r (for_each ?body (?P g) st) (\<lambda>st'. Inr (sh1, st'))"
    using point_group_seen [OF assms(1) g assms(2)] by blast
  show ?case
  proof (cases "for_each ?body (?P g) st")
    case (Inl e)
    then show ?thesis using one by (simp add: for_each_append)
  next
    case (Inr st1)
    from Cons.IH [OF gs, of sh1 st1] obtain sh2 where
      "for_each ?pg gs (sh1, st1) =
       bind_r (for_each ?body (concat (map ?P gs)) st1) (\<lambda>st'. Inr (sh2, st'))"
      by blast
    then show ?thesis using one Inr by (intro exI [of _ sh2]) (simp add: for_each_append)
  qed
qed

lemma backward_walk_seen:
  assumes "0 < tile_size config" "0 \<le> start_offset" "start_offset \<le> end_offset"
      and "tile_area = tile_size config * tile_size config"
      and "n = (end_offset - start_offset + (tile_area - 1)) div tile_area"
  shows "\<exists>sh'. backward_walk config pdf args thread_id sched pixel start_offset end_offset
                 last_point_idx grad (sh, st) =
     bind_r (for_each (\<lambda>k. blend_point config pdf args pixel last_point_idx grad k
       (points args (overlap_to_point args
          (seen_entry tile_area end_offset n thread_id (\<lambda>g i. fst (sched g i)) k)))
       (point_features args (overlap_to_point args
          (seen_entry tile_area end_offset n thread_id (\<lambda>g i. snd (sched g i)) k))))
        (map (\<lambda>j. end_offset - 1 - int j) [0..<nat (end_offset - start_offset)]) st)
       (\<lambda>st'. Inr (sh', st'))"
proof -
  let ?gs = "range_py n"
  have ta: "0 < tile_area" using assms(1,4) by simp
  have nn: "\<forall>g\<in>set ?gs. 0 \<le> g" by (simp add: set_range_py)
  have idx: "concat (map (point_group_indices tile_area start_offset end_offset) ?gs) =
      map (\<lambda>j. end_offset - 1 - int j) [0..<nat (end_offset - start_offset)]"
    using visited_concat [OF ta assms(3)]
    by (simp add: visited_pages_def Let_def assms(5) algebra_simps)
  from walk_pages_seen [OF assms(1) assms(2) nn, of pdf args thread_id sched pixel end_offset
        last_point_idx grad n sh st]
  obtain sh' where
    "for_each (point_group config pdf args thread_id sched pixel start_offset end_offset
                 last_point_idx grad n) ?gs (sh, st) =
     bind_r (for_each (\<lambda>k. blend_point config pdf args pixel last_point_idx grad k
       (points args (overlap_to_point args
          (seen_entry tile_area end_offset n thread_id (\<lambda>g i. fst (sched g i)) k)))
       (point_features args (overlap_to_point args
          (seen_entry tile_area end_offset n thread_id (\<lambda>g i. snd (sched g i)) k))))
        (map (\<lambda>j. end_offset - 1 - int j) [0..<nat (end_offset - start_offset)]) st)
       (\<lambda>st'. Inr (sh', st'))"
    unfolding assms(4) [symmetric] idx by blast
  moreover have "backward_walk config pdf args thread_id sched pixel start_offset end_offset
                 last_point_idx grad (sh, st) =
      for_each (point_group config pdf args thread_id sched pixel start_offset end_offset
                 last_point_idx grad n) ?gs (sh, st)"
    by (simp only: backward_walk_def Let_def assms(4) assms(5))
  ultimately show ?thesis by (intro exI [of _ sh']) simp
qed

lemma backward_walk_in_step:
  assumes "0 < tile_size config" "0 \<le> start_offset" "start_offset \<le> end_offset"
  shows "\<exists>sh'. backward_walk config pdf args thread_id in_step pixel start_offset end_offset
                 last_point_idx grad (sh, st) =
     bind_r (straight_walk config pdf args pixel start_offset end_offset last_point_idx grad st)
       (\<lambda>st'. Inr (sh', st'))"
proof -
  have l: "map (\<lambda>j. end_offset - 1 - int j) [0..<nat (end_offset - start_offset)] =
           rev (map (\<lambda>j. start_offset + int j) [0..<nat (end_offset - start_offset)])"
    unfolding rev_range [OF assms(3)] by (simp add: algebra_simps)
  show ?thesis
    using backward_walk_seen [OF assms refl refl, of pdf args thread_id in_step pixel
        last_point_idx grad sh st]
    unfolding l straight_walk_def by (simp add: in_step_def)
qed

lemma backward_walk_shapes:
  assumes "0 < tile_size config" "0 \<le> start_offset" "start_offset \<le> end_offset"
      and "length (w_i st) = n" "\<forall>i. length (grad_point_features st i) = n"
      and "\<forall>i. length (point_features args i) = n" "length grad = n"
  shows "\<exists>sh' st'. backward_walk config pdf args thread_id sched pixel start_offset end_offset
                 last_point_idx grad (sh, st) = Inr (sh', st')
           \<and> (\<forall>i. length (grad_point_features st' i) = n)"
proof -
  let ?P = "\<lambda>s::thread_state. length (w_i s) = n \<and> (\<forall>i. length (grad_point_features s i) = n)"
  let ?ta = "tile_size config * tile_size config"
  let ?n = "(end_offset - start_offset + (?ta - 1)) div ?ta"
  let ?body = "\<lambda>k. blend_point config pdf args pixel last_point_idx grad k
       (points args (overlap_to_point args
          (seen_entry ?ta end_offset ?n thread_id (\<lambda>g i. fst (sched g i)) k)))
       (point_features args (overlap_to_point args
          (seen_entry ?ta end_offset ?n thread_id (\<lambda>g i. snd (sched g i)) k)))"
  let ?ks = "map (\<lambda>j. end_offset - 1 - int j) [0..<nat (end_offset - start_offset)]"
  have "\<exists>st'. for_each ?body ?ks st = Inr st' \<and> ?P st'"
  proof (rule for_each_invariant)
    show "?P st" using assms(4,5) by simp
  next
    fix x and s :: thread_state assume "?P s"
    then show "\<exists>s'. ?body x s = Inr s' \<and> ?P s'"
      using blend_point_total [of s n _ grad] assms(6,7) by simp
  qed
  then obtain st' where st': "for_each ?body ?ks st = Inr st'" "?P st'" by blast
  from backward_walk_seen [OF assms(1,2,3) refl refl, of pdf args thread_id sched pixel
      last_point_idx grad sh st]
  obtain sh' where "backward_walk config pdf args thread_id sched pixel start_offset end_offset
                 last_point_idx grad (sh, st) = bind_r (for_each ?body ?ks st) (\<lambda>st'. Inr (sh', st'))"
    by blast
  then show ?thesis using st' by simp
qed

lemma thread_body_spec:
  assumes "p = (tile_v * tile_size config + v, tile_u * tile_size config + u)"
      and "tile_overlap_ranges args (tile_u + tile_v * tiles_wide) = (start_offset, end_offset)"
      and "thread_body config feature_size pdf args sched tiles_wide (tile_v, tile_u, v, u)
             (sh, ks) = Inr (sh', ks')"
  shows "image_feature ks' = (image_feature ks)(p := replicate feature_size 0)"
    and "image_last_valid ks' = image_last_valid ks"
    and "\<exists>st'. backward_walk config pdf args (u + v * tile_size config) sched (snd p, fst p)
                 start_offset end_offset (image_last_valid ks p) (grad_image_feature args p)
                 (sh, init_thread ks (image_alpha ks p)) = Inr (sh', st')
           \<and> image_alpha ks' = (image_alpha ks)(p := 1 - T_i st')
           \<and> grad_point_features ks' = grad_point_features st'"
proof -
  let ?bw = "backward_walk config pdf args (u + v * tile_size config) sched (snd p, fst p)
                 start_offset end_offset (image_last_valid ks p) (grad_image_feature args p)
                 (sh, init_thread ks (image_alpha ks p))"
  have body: "thread_body config feature_size pdf args sched tiles_wide (tile_v, tile_u, v, u)
                (sh, ks) =
      bind_r ?bw (\<lambda>(sh1, st). Inr (sh1, ks\<lparr>grad_points := grad_points st,
                      grad_point_features := grad_point_features st,
                      image_feature := (image_feature ks)(p := replicate feature_size 0),
                      image_alpha := (image_alpha ks)(p := 1 - T_i st)\<rparr>))"
    using assms(1,2) by (simp add: thread_body_def Let_def)
  from assms(3) body obtain sh1 st' where st': "?bw = Inr (sh1, st')"
    by (cases ?bw) auto
  then have ks': "sh' = sh1" "ks' = ks\<lparr>grad_points := grad_points st',
                      grad_point_features := grad_point_features st',
                      image_feature := (image_feature ks)(p := replicate feature_size 0),
                      image_alpha := (image_alpha ks)(p := 1 - T_i st')\<rparr>"
    using assms(3) body by simp_all
  show "image_feature ks' = (image_feature ks)(p := replicate feature_size 0)" by (simp add: ks')
  show "image_last_valid ks' = image_last_valid ks" by (simp add: ks')
  show "\<exists>st'. ?bw = Inr (sh', st')
           \<and> image_alpha ks' = (image_alpha ks)(p := 1 - T_i st')
           \<and> grad_point_features ks' = grad_point_features st'"
    using st' by (simp add: ks')
qed

lemma thread_body_total:
  assumes "0 < tile_size config"
      and "tile_overlap_ranges args (tile_u + tile_v * tiles_wide) = (start_offset, end_offset)"
      and "0 \<le> start_offset" "start_offset \<le> end_offset"
      and "\<forall>i. length (point_features args i) = 3"
      and "\<forall>q. length (grad_image_feature args q) = 3"
      and "\<forall>i. length (grad_point_features ks i) = 3"
  shows "\<exists>sh' ks'. thread_body config feature_size pdf args sched tiles_wide (tile_v, tile_u, v, u)
             (sh, ks) = Inr (sh', ks') \<and> (\<forall>i. length (grad_point_features ks' i) = 3)"
proof -
  let ?pixel = "(tile_u * tile_size config + u, tile_v * tile_size config + v)"
  let ?p = "(snd ?pixel, fst ?pixel)"
  let ?bw = "backward_walk config pdf args (u + v * tile_size config) sched ?pixel
                 start_offset end_offset (image_last_valid ks ?p) (grad_image_feature args ?p)
                 (sh, init_thread ks (image_alpha ks ?p))"
  have body: "thread_body config feature_size pdf args sched tiles_wide (tile_v, tile_u, v, u)
                (sh, ks) =
      bind_r ?bw (\<lambda>(sh1, st). Inr (sh1, ks\<lparr>grad_points := grad_points st,
                      grad_point_features := grad_point_features st,
                      image_feature := (image_feature ks)(?p := replicate feature_size 0),
                      image_alpha := (image_alpha ks)(?p := 1 - T_i st)\<rparr>))"
    using assms(2) by (simp add: thread_body_def Let_def)
  have "\<exists>sh' st'. ?bw = Inr (sh', st') \<and> (\<forall>i. length (grad_point_features st' i) = 3)"
    by (rule backward_walk_shapes [OF assms(1,3,4)])
      (use assms(5,6,7) in \<open>simp_all add: init_thread_def\<close>)
  then obtain sh1 st' where "?bw = Inr (sh1, st')" "\<forall>i. length (grad_point_features st' i) = 3"
    by blast
  then show ?thesis using body by simp
qed

lemma kernel_threads:
  fixes xs :: "(int \<times> int \<times> int \<times> int) list"
  assumes pix: "pix = (\<lambda>(tile_v, tile_u, v, u).
                         (tile_v * tile_size config + v, tile_u * tile_size config + u))"
      and d: "distinct (map pix xs)"
      and run: "for_each (\<lambda>idx. thread_body config feature_size pdf args (sched idx) tiles_wide idx)
                  xs (sh, ks) = Inr (sh', ks')"
  shows "image_last_valid ks' = image_last_valid ks
       \<and> (\<forall>q. q \<notin> pix ` set xs \<longrightarrow>
             image_feature ks' q = image_feature ks q \<and> image_alpha ks' q = image_alpha ks q)
       \<and> (\<forall>tile_v tile_u v u. (tile_v, tile_u, v, u) \<in> set xs \<longrightarrow>
             image_feature ks' (pix (tile_v, tile_u, v, u)) = replicate feature_size 0
           \<and> (\<exists>sh0 sh1 st st'. T_i st = 1 - image_alpha ks (pix (tile_v, tile_u, v, u))
                 \<and> w_i st = [0, 0, 0]
                 \<and> backward_walk config pdf args (u + v * tile_size config)
                      (sched (tile_v, tile_u, v, u))
                      (snd (pix (tile_v, tile_u, v, u)), fst (pix (tile_v, tile_u, v, u)))
                      (fst (tile_overlap_ranges args (tile_u + tile_v * tiles_wide)))
                      (snd (tile_overlap_ranges args (tile_u + tile_v * tiles_wide)))
                      (image_last_valid ks (pix (tile_v, tile_u, v, u)))
                      (grad_image_feature args (pix (tile_v, tile_u, v, u))) (sh0, st)
                    = Inr (sh1, st')
                 \<and> image_alpha ks' (pix (tile_v, tile_u, v, u)) = 1 - T_i st'))"
  using d run
proof (induction xs arbitrary: sh ks)
  case Nil
  then show ?case by simp
next
  case (Cons x xs)
  obtain tv tu v u where x: "x = (tv, tu, v, u)" by (metis prod_cases4)
  let ?p = "pix x"
  let ?body = "\<lambda>idx. thread_body config feature_size pdf args (sched idx) tiles_wide idx"
  have p: "?p = (tv * tile_size config + v, tu * tile_size config + u)" by (simp add: pix x)
  obtain s e where se: "tile_overlap_ranges args (tu + tv * tiles_wide) = (s, e)"
    by (metis surj_pair)
  from Cons.prems(2) obtain sh1 ks1 where
    one: "?body x (sh, ks) = Inr (sh1, ks1)"
    and rest: "for_each ?body xs (sh1, ks1) = Inr (sh', ks')"
    by (cases "?body x (sh, ks)") auto
  note spec = thread_body_spec [OF p se one [unfolded x]]
  from spec(3) obtain st1 where st1:
    "backward_walk config pdf args (u + v * tile_size config) (sched (tv, tu, v, u))
       (snd ?p, fst ?p) s e (image_last_valid ks ?p)
       (grad_image_feature args ?p) (sh, init_thread ks (image_alpha ks ?p)) = Inr (sh1, st1)"
    "image_alpha ks1 = (image_alpha ks)(?p := 1 - T_i st1)"
    by blast
  from Cons.prems(1) have dx: "?p \<notin> pix ` set xs" and dxs: "distinct (map pix xs)" by auto
  note IH = Cons.IH [OF dxs rest]
  from IH have lv: "image_last_valid ks' = image_last_valid ks1"
    and frame: "\<And>q. q \<notin> pix ` set xs \<Longrightarrow>
             image_feature ks' q = image_feature ks1 q \<and> image_alpha ks' q = image_alpha ks1 q"
    by blast+
  show ?case
  proof (intro conjI allI impI)
    show "image_last_valid ks' = image_last_valid ks" using lv spec(2) by simp
  next
    fix q assume "q \<notin> pix ` set (x # xs)"
    then have q: "q \<noteq> ?p" "q \<notin> pix ` set xs" by auto
    from frame [OF q(2)] q(1) show "image_feature ks' q = image_feature ks q"
      and "image_alpha ks' q = image_alpha ks q"
      by (simp_all add: spec(1) st1(2))
  next
    fix tile_v tile_u v' u'
    assume mem: "(tile_v, tile_u, v', u') \<in> set (x # xs)"
    let ?q = "pix (tile_v, tile_u, v', u')"
    show "image_feature ks' ?q = replicate feature_size 0"
    proof (cases "(tile_v, tile_u, v', u') = x")
      case True
      then show ?thesis using frame [OF dx] by (simp add: spec(1))
    next
      case False
      then have "(tile_v, tile_u, v', u') \<in> set xs" using mem by simp
      then show ?thesis using IH by blast
    qed
    show "\<exists>sh0 sh1 st st'. T_i st = 1 - image_alpha ks ?q \<and> w_i st = [0, 0, 0]
                 \<and> backward_walk config pdf args (u' + v' * tile_size config)
                      (sched (tile_v, tile_u, v', u')) (snd ?q, fst ?q)
                      (fst (tile_overlap_ranges args (tile_u + tile_v * tiles_wide)))
                      (snd (tile_overlap_ranges args (tile_u + tile_v * tiles_wide)))
                      (image_last_valid ks ?q) (grad_image_feature args ?q) (sh0, st)
                    = Inr (sh1, st')
                 \<and> image_alpha ks' ?q = 1 - T_i st'"
    proof (cases "(tile_v, tile_u, v', u') = x")
      case True
      have q: "?q = ?p" by (simp only: True)
      have t: "tile_u + tile_v * tiles_wide = tu + tv * tiles_wide" "tile_v = tv" "tile_u = tu"
        "v' = v" "u' = u"
        using True x by simp_all
      have a: "image_alpha ks' ?p = 1 - T_i st1" using frame [OF dx] by (simp add: st1(2))
      have i: "T_i (init_thread ks (image_alpha ks ?p)) = 1 - image_alpha ks ?p"
        "w_i (init_thread ks (image_alpha ks ?p)) = [0, 0, 0]"
        by (simp_all add: init_thread_def)
      have px: "pix (tv, tu, v, u) = ?p" by (simp only: x)
      show ?thesis
        unfolding t px se
        by (rule exI [of _ sh], rule exI [of _ sh1],
            rule exI [of _ "init_thread ks (image_alpha ks ?p)"], rule exI [of _ st1])
          (simp add: a i st1(1))
    next
      case False
      then have in_xs: "(tile_v, tile_u, v', u') \<in> set xs" using mem by simp
      then have "?q \<in> pix ` set xs" by (rule imageI)
      then have ne: "?q \<noteq> ?p" using dx by metis
      from IH in_xs obtain sh0 sh2 st st' where
        "T_i st = 1 - image_alpha ks1 ?q" "w_i st = [0, 0, 0]"
        "backward_walk config pdf args (u' + v' * tile_size config)
           (sched (tile_v, tile_u, v', u')) (snd ?q, fst ?q)
           (fst (tile_overlap_ranges args (tile_u + tile_v * tiles_wide)))
           (snd (tile_overlap_ranges args (tile_u + tile_v * tiles_wide)))
           (image_last_valid ks1 ?q) (grad_image_feature args ?q) (sh0, st) = Inr (sh2, st')"
        "image_alpha ks' ?q = 1 - T_i st'"
        by blast
      then show ?thesis using ne by (simp add: spec(2) st1(2)) blast
    qed
  qed
qed

lemma backward_kernel_total:
  assumes "0 < tile_size config"
      and "\<forall>t. 0 \<le> fst (tile_overlap_ranges args t)
             \<and> fst (tile_overlap_ranges args t) \<le> snd (tile_overlap_ranges args t)"
      and "\<forall>i. length (point_features args i) = 3"
      and "\<forall>q. length (grad_image_feature args q) = 3"
      and "\<forall>i. length (grad_point_features ks i) = 3"
  shows "\<exists>sh' ks'. backward_kernel config feature_size pdf args sched camera_height camera_width
                     (sh, ks) = Inr (sh', ks')"
proof -
  let ?P = "\<lambda>s :: shared \<times> kernel_state. \<forall>i. length (grad_point_features (snd s) i) = 3"
  have "\<exists>s'. for_each (\<lambda>idx. thread_body config feature_size pdf args (sched idx)
                                 (camera_width div tile_size config) idx)
           (ndrange4 (camera_height div tile_size config) (camera_width div tile_size config)
              (tile_size config) (tile_size config)) (sh, ks) = Inr s' \<and> ?P s'"
  proof (rule for_each_invariant)
    show "?P (sh, ks)" using assms(5) by simp
  next
    fix x :: "int \<times> int \<times> int \<times> int" and s :: "shared \<times> kernel_state"
    assume P: "?P s"
    obtain tv tu v u where x: "x = (tv, tu, v, u)" by (metis prod_cases4)
    obtain sh0 ks0 where s: "s = (sh0, ks0)" by (metis surj_pair)
    obtain a b where r:
      "tile_overlap_ranges args (tu + tv * (camera_width div tile_size config)) = (a, b)"
      by (metis surj_pair)
    have ab: "0 \<le> a" "a \<le> b"
      using assms(2) [rule_format, of "tu + tv * (camera_width div tile_size config)"] r
      by simp_all
    have k: "\<forall>i. length (grad_point_features ks0 i) = 3" using P s by simp
    from thread_body_total [OF assms(1) r ab assms(3,4) k, of feature_size pdf "sched x" v u sh0]
    show "\<exists>s'. thread_body config feature_size pdf args (sched x)
                 (camera_width div tile_size config) x s = Inr s' \<and> ?P s'"
      unfolding x s by auto
  qed
  then show ?thesis by (auto simp: backward_kernel_def Let_def)
qed

lemma ex_race_walk:
  "\<exists>sh'. backward_walk ex_config ex_pdf race_args 1 race_sched (1, 0) 0 5 5 [1, 1, 1]
           (ex_shared, ex_state) =
     bind_r (for_each (\<lambda>k. blend_point ex_config ex_pdf race_args (1, 0) 5 [1, 1, 1] k
       (points race_args (overlap_to_point race_args
          (seen_entry 4 5 2 1 (\<lambda>g i. fst (race_sched g i)) k)))
       (point_features race_args (overlap_to_point race_args
          (seen_entry 4 5 2 1 (\<lambda>g i. snd (race_sched g i)) k))))
        [4, 3, 2, 1, 0] ex_state)
       (\<lambda>st'. Inr (sh', st'))"
proof -
  have h1: "0 < tile_size ex_config" by (simp add: ex_config_def Config_init_def)
  have h2: "(0::int) \<le> 0" and h3: "(0::int) \<le> 5" by simp_all
  have h4: "(4::int) = tile_size ex_config * tile_size ex_config"
    by (simp add: ex_config_def Config_init_def)
  have h5: "(2::int) = (5 - 0 + (4 - 1)) div 4" by simp
  have m: "map (\<lambda>j. 5 - 1 - int j) [0..<nat (5 - 0)] = [4, 3, 2, 1, 0]"
    by (simp add: upt_conv_Cons)
  show ?thesis
    using backward_walk_seen [OF h1 h2 h3 h4 h5, of ex_pdf race_args 1 race_sched "(1, 0)" 5
        "[1, 1, 1]" ex_shared ex_state]
    unfolding m .
qed

lemma descending_indices:
  "sorted_wrt (>) (map (\<lambda>j. end_offset - 1 - int j) [0..<n])"
  unfolding sorted_wrt_map
  by (rule sorted_wrt_mono_rel [OF _ sorted_wrt_upt]) simp

section \<open>Properties\<close>

text \<open>
  C1. For a primitive that contributes (its list index is below \<open>last_point_idx\<close> and its raw
  alpha is not below the threshold), with \<open>a\<close> the clamped alpha: the new transmittance is
  the old one divided by \<open>1 - a\<close>; the alpha gradient, which scales the packed gradient added
  to \<open>grad_points\<close>, is the dot product of \<open>feature * T_i - w_i / (1 - a)\<close> with the pixel's
  incoming gradient, taken with the new transmittance and the old suffix sum; and the new
  suffix sum is the old one plus \<open>feature * a * T_i\<close> with the new transmittance.
\<close>

theorem undivide_then_alpha_grad_then_suffix:
  assumes "point_index < last_point_idx"
      and "pdf (real_of_int (fst pixel) + 1 / 2, real_of_int (snd pixel) + 1 / 2)
             (uv g) (uv_conic g) = (gaussian_alpha, dp_dmean, dp_dconic)"
      and "alpha_threshold config \<le> point_alpha g * gaussian_alpha"
      and "a = min (point_alpha g * gaussian_alpha) (clamp_max_alpha config)"
      and "off = overlap_to_point args point_index"
      and "length feature = length (w_i st)"
      and "length grad = length feature"
      and "length (grad_point_features st off) = length grad"
  shows "\<exists>st'. blend_point config pdf args pixel last_point_idx grad point_index g feature st
             = Inr st'
           \<and> T_i st' = T_i st / (1 - a)
           \<and> grad_points st' off =
               gadd (grad_points st off)
                 (gscale (\<Sum>k<length feature.
                            (feature ! k * T_i st' - w_i st ! k / (1 - a)) * grad ! k)
                    (pack (scale2 (point_alpha g) dp_dmean) (scale3 (point_alpha g) dp_dconic)
                       gaussian_alpha))
           \<and> length (w_i st') = length (w_i st)
           \<and> (\<forall>k<length feature. w_i st' ! k = w_i st ! k + feature ! k * a * T_i st')"
proof -
  have sum: "sum_list (map2 (*) (map2 (-) (vscale feature T) (vdivs (w_i st) (1 - a))) grad) =
        (\<Sum>k<length feature. (feature ! k * T - w_i st ! k / (1 - a)) * grad ! k)" for T
    using assms(6,7) by (simp add: alpha_grad_sum)
  have w: "vscale (vscale feature a) T ! k = feature ! k * a * T"
    if "k < length (w_i st)" for k T
    using that assms(6) by (simp add: vscale_def)
  show ?thesis
    unfolding blend_point_contributes [where pdf = pdf and pixel = pixel and g = g,
        OF assms(1) assms(2) assms(3) assms(4) refl assms(5) assms(6) assms(7) assms(8)]
    using assms(6) by (simp add: sum w)
qed

theorem undivide_then_alpha_grad_then_suffix_witness:
  "(0::int) < 1
   \<and> ex_pdf (real_of_int (fst (0::int, 0::int)) + 1 / 2, real_of_int (snd (0::int, 0::int)) + 1 / 2)
        (uv (ex_point (1 / 2))) (uv_conic (ex_point (1 / 2))) = (1 / 2, (1 / 2, 1 / 2), (1, 0, 1))
   \<and> alpha_threshold ex_config \<le> point_alpha (ex_point (1 / 2)) * (1 / 2)
   \<and> (1 / 2 :: real) = min (point_alpha (ex_point (1 / 2)) * (1 / 2)) (clamp_max_alpha ex_config)
   \<and> (\<exists>st'. blend_point ex_config ex_pdf ex_args (0, 0) 1 [1, 1, 1] 0 (ex_point (1 / 2))
               [1, 0, 0] ex_state = Inr st'
        \<and> T_i st' = 1 / 2
        \<and> point_alpha (grad_points st' 0) = 1 / 4
        \<and> w_i st' ! 0 = 1 / 4)"
proof -
  have h1: "(0::int) < 1" by simp
  have h2: "ex_pdf (real_of_int (fst (0::int, 0::int)) + 1 / 2, real_of_int (snd (0::int, 0::int)) + 1 / 2)
        (uv (ex_point (1 / 2))) (uv_conic (ex_point (1 / 2))) = (1 / 2, (1 / 2, 1 / 2), (1, 0, 1))"
    by (simp add: ex_pdf_def ex_point_def)
  have h3: "alpha_threshold ex_config \<le> point_alpha (ex_point (1 / 2)) * (1 / 2)"
    by (simp add: ex_config_def Config_init_def ex_point_def)
  have h4: "(1 / 2 :: real) = min (point_alpha (ex_point (1 / 2)) * (1 / 2)) (clamp_max_alpha ex_config)"
    by (simp add: ex_config_def Config_init_def ex_point_def)
  have h5: "(0::int) = overlap_to_point ex_args 0" by (simp add: ex_args_def)
  have h6: "length [1, 0, 0 :: real] = length (w_i ex_state)" by (simp add: ex_state_def)
  have h7: "length [1, 1, 1 :: real] = length [1, 0, 0 :: real]" by simp
  have h8: "length (grad_point_features ex_state 0) = length [1, 1, 1 :: real]"
    by (simp add: ex_state_def)
  from undivide_then_alpha_grad_then_suffix [where pdf = ex_pdf and pixel = "(0, 0)"
      and g = "ex_point (1 / 2)", OF h1 h2 h3 h4 h5 h6 h7 h8]
  obtain st' where st':
    "blend_point ex_config ex_pdf ex_args (0, 0) 1 [1, 1, 1] 0 (ex_point (1 / 2)) [1, 0, 0]
       ex_state = Inr st'"
    "T_i st' = T_i ex_state / (1 - 1 / 2)"
    "grad_points st' 0 =
       gadd (grad_points ex_state 0)
         (gscale (\<Sum>k<length [1, 0, 0 :: real].
                    ([1, 0, 0] ! k * T_i st' - w_i ex_state ! k / (1 - 1 / 2)) * [1, 1, 1] ! k)
            (pack (scale2 (point_alpha (ex_point (1 / 2))) (1 / 2, 1 / 2))
               (scale3 (point_alpha (ex_point (1 / 2))) (1, 0, 1)) (1 / 2)))"
    "length (w_i st') = length (w_i ex_state)"
    "\<forall>k<length [1, 0, 0 :: real]. w_i st' ! k = w_i ex_state ! k + [1, 0, 0] ! k * (1 / 2) * T_i st'"
    by blast
  have T: "T_i st' = 1 / 2" using st'(2) by (simp add: ex_state_def)
  have w: "w_i st' ! 0 = 1 / 4"
    using st'(5) T by (simp add: ex_state_def)
  have g: "point_alpha (grad_points st' 0) = 1 / 4"
    unfolding st'(3) T
    by (simp add: gadd_def gscale_def pack_def ex_state_def ex_point_def lessThan_Suc numeral_3_eq_3)
  show ?thesis using h1 h2 h3 h4 st'(1) T g w by blast
qed

text \<open>
  C2. For a contributing primitive the two gradient arrays are added to, at the
  primitive's entry only: the feature gradient grows by \<open>a * T * grad\<close>, the mean and conic
  gradients by the alpha gradient times opacity times the density's derivatives, and the
  opacity gradient by the alpha gradient times the raw density. Every other entry of both
  arrays is unchanged.
\<close>

theorem gradients_are_accumulated:
  assumes "point_index < last_point_idx"
      and "pdf (real_of_int (fst pixel) + 1 / 2, real_of_int (snd pixel) + 1 / 2)
             (uv g) (uv_conic g) = (gaussian_alpha, dp_dmean, dp_dconic)"
      and "alpha_threshold config \<le> point_alpha g * gaussian_alpha"
      and "a = min (point_alpha g * gaussian_alpha) (clamp_max_alpha config)"
      and "off = overlap_to_point args point_index"
      and "length feature = length (w_i st)"
      and "length grad = length feature"
      and "length (grad_point_features st off) = length grad"
      and "T = T_i st / (1 - a)"
      and "alpha_grad = (\<Sum>k<length feature. (feature ! k * T - w_i st ! k / (1 - a)) * grad ! k)"
  shows "\<exists>st'. blend_point config pdf args pixel last_point_idx grad point_index g feature st
             = Inr st'
           \<and> length (grad_point_features st' off) = length grad
           \<and> (\<forall>k<length grad. grad_point_features st' off ! k =
                  grad_point_features st off ! k + a * T * grad ! k)
           \<and> uv (grad_points st' off) =
               (fst (uv (grad_points st off)) + alpha_grad * (point_alpha g * fst dp_dmean),
                snd (uv (grad_points st off)) + alpha_grad * (point_alpha g * snd dp_dmean))
           \<and> uv_conic (grad_points st' off) =
               (fst (uv_conic (grad_points st off))
                  + alpha_grad * (point_alpha g * fst dp_dconic),
                fst (snd (uv_conic (grad_points st off)))
                  + alpha_grad * (point_alpha g * fst (snd dp_dconic)),
                snd (snd (uv_conic (grad_points st off)))
                  + alpha_grad * (point_alpha g * snd (snd dp_dconic)))
           \<and> point_alpha (grad_points st' off) =
               point_alpha (grad_points st off) + alpha_grad * gaussian_alpha
           \<and> (\<forall>j. j \<noteq> off \<longrightarrow> grad_points st' j = grad_points st j
                  \<and> grad_point_features st' j = grad_point_features st j)"
proof -
  have sum: "sum_list (map2 (*) (map2 (-) (vscale feature T) (vdivs (w_i st) (1 - a))) grad) =
        alpha_grad"
    using assms(6,7,10) by (simp add: alpha_grad_sum)
  have sv: "svscale (a * T) grad ! k = a * T * grad ! k" if "k < length grad" for k
    using that by (simp add: svscale_def)
  show ?thesis
    unfolding blend_point_contributes [where pdf = pdf and pixel = pixel and g = g,
        OF assms(1) assms(2) assms(3) assms(4) assms(9) assms(5) assms(6) assms(7) assms(8)]
    using assms(8)
    by (simp add: sum sv gadd_def gscale_def pack_def add2_def add3_def scale2_def scale3_def)
qed

theorem gradients_are_accumulated_witness:
  "(0::int) < 1
   \<and> alpha_threshold ex_config \<le> point_alpha (ex_point (1 / 2)) * (1 / 2)
   \<and> (\<exists>st'. blend_point ex_config ex_pdf ex_args (0, 0) 1 [1, 1, 1] 0 (ex_point (1 / 2))
               [1, 0, 0] ex_state = Inr st'
        \<and> grad_point_features st' 0 ! 0 = 1 / 4
        \<and> uv (grad_points st' 0) = (1 / 4, 1 / 4)
        \<and> uv_conic (grad_points st' 0) = (1 / 2, 0, 1 / 2)
        \<and> point_alpha (grad_points st' 0) = 1 / 4
        \<and> grad_points st' 7 = grad_points ex_state 7)"
proof -
  have h1: "(0::int) < 1" by simp
  have T: "(1 / 2 :: real) = T_i ex_state / (1 - 1 / 2)" by (simp add: ex_state_def)
  have ag: "(1 / 2 :: real) =
      (\<Sum>k<length [1, 0, 0 :: real]. ([1, 0, 0] ! k * (1 / 2) - w_i ex_state ! k / (1 - 1 / 2))
          * [1, 1, 1] ! k)"
    by (simp add: ex_state_def lessThan_Suc numeral_3_eq_3)
  from gradients_are_accumulated [where pdf = ex_pdf and pixel = "(0, 0)"
      and g = "ex_point (1 / 2)", OF h1 ex_pdf_at ex_threshold ex_clamp ex_offset ex_lengths T ag]
  obtain st' where st':
    "blend_point ex_config ex_pdf ex_args (0, 0) 1 [1, 1, 1] 0 (ex_point (1 / 2)) [1, 0, 0]
       ex_state = Inr st'"
    "\<forall>k<length [1, 1, 1 :: real]. grad_point_features st' 0 ! k =
        grad_point_features ex_state 0 ! k + 1 / 2 * (1 / 2) * [1, 1, 1] ! k"
    "uv (grad_points st' 0) =
       (fst (uv (grad_points ex_state 0)) + 1 / 2 * (point_alpha (ex_point (1 / 2)) * fst (1 / 2 :: real, 1 / 2 :: real)),
        snd (uv (grad_points ex_state 0)) + 1 / 2 * (point_alpha (ex_point (1 / 2)) * snd (1 / 2 :: real, 1 / 2 :: real)))"
    "uv_conic (grad_points st' 0) =
       (fst (uv_conic (grad_points ex_state 0))
          + 1 / 2 * (point_alpha (ex_point (1 / 2)) * fst (1 :: real, 0 :: real, 1 :: real)),
        fst (snd (uv_conic (grad_points ex_state 0)))
          + 1 / 2 * (point_alpha (ex_point (1 / 2)) * fst (snd (1 :: real, 0 :: real, 1 :: real))),
        snd (snd (uv_conic (grad_points ex_state 0)))
          + 1 / 2 * (point_alpha (ex_point (1 / 2)) * snd (snd (1 :: real, 0 :: real, 1 :: real))))"
    "point_alpha (grad_points st' 0) = point_alpha (grad_points ex_state 0) + 1 / 2 * (1 / 2)"
    "\<forall>j. j \<noteq> 0 \<longrightarrow> grad_points st' j = grad_points ex_state j
          \<and> grad_point_features st' j = grad_point_features ex_state j"
    by blast
  have f: "grad_point_features st' 0 ! 0 = 1 / 4" using st'(2) by (simp add: ex_state_def)
  have u: "uv (grad_points st' 0) = (1 / 4, 1 / 4)"
    using st'(3) by (simp add: ex_state_def ex_point_def)
  have c: "uv_conic (grad_points st' 0) = (1 / 2, 0, 1 / 2)"
    using st'(4) by (simp add: ex_state_def ex_point_def)
  have o: "point_alpha (grad_points st' 0) = 1 / 4" using st'(5) by (simp add: ex_state_def)
  have r: "grad_points st' 7 = grad_points ex_state 7" using st'(6) by simp
  show ?thesis using h1 ex_threshold st'(1) f u c o r by blast
qed



text \<open>
  C4. Under any schedule, the walk of a thread is the sequence of the steps \<open>blend_point\<close>
  at the list indices \<open>end_offset - 1\<close>, \<open>end_offset - 2\<close>, down to \<open>start_offset\<close>, a strictly
  descending list. The step at the index \<open>k\<close> works on the data of the entry \<open>k\<close>, or of the
  entry \<open>k - tile_area\<close> when the slot's owner is a page ahead; with all threads in step it
  is the entry \<open>k\<close>. A step at an index that is \<open>last_point_idx\<close> or beyond leaves the state
  as it is, and a step below \<open>last_point_idx\<close> on a primitive that the forward test does not
  skip is carried out: it divides the transmittance by one minus the clamped alpha.
\<close>

theorem walk_descends_and_stops_at_last_valid:
  assumes "0 < tile_size config" "0 \<le> start_offset" "start_offset \<le> end_offset"
      and "tile_area = tile_size config * tile_size config"
  shows "\<exists>sh' G F.
           backward_walk config pdf args thread_id sched pixel start_offset end_offset
               last_point_idx grad (sh, st)
             = bind_r (for_each (\<lambda>k. blend_point config pdf args pixel last_point_idx grad k
                                     (G k) (F k))
                         (map (\<lambda>j. end_offset - 1 - int j) [0..<nat (end_offset - start_offset)])
                         st)
                 (\<lambda>st'. Inr (sh', st'))
         \<and> sorted_wrt (>) (map (\<lambda>j. end_offset - 1 - int j) [0..<nat (end_offset - start_offset)])
         \<and> (\<forall>k. (G k = points args (overlap_to_point args k)
                  \<or> G k = points args (overlap_to_point args (k - tile_area)))
              \<and> (F k = point_features args (overlap_to_point args k)
                  \<or> F k = point_features args (overlap_to_point args (k - tile_area))))
         \<and> (sched = in_step \<longrightarrow>
              (\<forall>k. G k = points args (overlap_to_point args k)
                 \<and> F k = point_features args (overlap_to_point args k)))
         \<and> (\<forall>k g f s. last_point_idx \<le> k \<longrightarrow>
               blend_point config pdf args pixel last_point_idx grad k g f s = Inr s)
         \<and> (\<forall>k g f s gaussian_alpha dp_dmean dp_dconic.
               k < last_point_idx
               \<and> pdf (real_of_int (fst pixel) + 1 / 2, real_of_int (snd pixel) + 1 / 2)
                    (uv g) (uv_conic g) = (gaussian_alpha, dp_dmean, dp_dconic)
               \<and> \<not> forward_skips config (point_alpha g) gaussian_alpha
               \<and> length f = length (w_i s) \<and> length grad = length f
               \<and> length (grad_point_features s (overlap_to_point args k)) = length grad
             \<longrightarrow> (\<exists>s'. blend_point config pdf args pixel last_point_idx grad k g f s = Inr s'
                    \<and> T_i s' = T_i s / (1 - min (point_alpha g * gaussian_alpha)
                                               (clamp_max_alpha config))))"
proof -
  define n where "n = (end_offset - start_offset + (tile_area - 1)) div tile_area"
  define G where "G = (\<lambda>k. points args (overlap_to_point args
          (seen_entry tile_area end_offset n thread_id (\<lambda>g i. fst (sched g i)) k)))"
  define F where "F = (\<lambda>k. point_features args (overlap_to_point args
          (seen_entry tile_area end_offset n thread_id (\<lambda>g i. snd (sched g i)) k)))"
  from backward_walk_seen [OF assms n_def, of pdf args thread_id sched pixel last_point_idx grad
      sh st]
  obtain sh' where walk:
    "backward_walk config pdf args thread_id sched pixel start_offset end_offset
               last_point_idx grad (sh, st)
             = bind_r (for_each (\<lambda>k. blend_point config pdf args pixel last_point_idx grad k
                                     (G k) (F k))
                         (map (\<lambda>j. end_offset - 1 - int j) [0..<nat (end_offset - start_offset)])
                         st)
                 (\<lambda>st'. Inr (sh', st'))"
    unfolding G_def F_def by blast
  have cases: "(G k = points args (overlap_to_point args k)
                  \<or> G k = points args (overlap_to_point args (k - tile_area)))
              \<and> (F k = point_features args (overlap_to_point args k)
                  \<or> F k = point_features args (overlap_to_point args (k - tile_area)))" for k
    using seen_entry_cases [of tile_area end_offset n thread_id "\<lambda>g i. fst (sched g i)" k]
      seen_entry_cases [of tile_area end_offset n thread_id "\<lambda>g i. snd (sched g i)" k]
    unfolding G_def F_def by auto
  have step: "G k = points args (overlap_to_point args k)
                 \<and> F k = point_features args (overlap_to_point args k)"
    if "sched = in_step" for k
    unfolding G_def F_def that by (simp add: in_step_def)
  have skip: "blend_point config pdf args pixel last_point_idx grad k g f s = Inr s"
    if "last_point_idx \<le> k" for k g f s
    using that by (rule blend_point_beyond)
  have go: "\<exists>s'. blend_point config pdf args pixel last_point_idx grad k g f s = Inr s'
                    \<and> T_i s' = T_i s / (1 - min (point_alpha g * gaussian_alpha)
                                               (clamp_max_alpha config))"
    if h: "k < last_point_idx
               \<and> pdf (real_of_int (fst pixel) + 1 / 2, real_of_int (snd pixel) + 1 / 2)
                    (uv g) (uv_conic g) = (gaussian_alpha, dp_dmean, dp_dconic)
               \<and> \<not> forward_skips config (point_alpha g) gaussian_alpha
               \<and> length f = length (w_i s) \<and> length grad = length f
               \<and> length (grad_point_features s (overlap_to_point args k)) = length grad"
    for k g f s gaussian_alpha dp_dmean dp_dconic
  proof -
    from h have idx: "k < last_point_idx"
      and pdf: "pdf (real_of_int (fst pixel) + 1 / 2, real_of_int (snd pixel) + 1 / 2)
                    (uv g) (uv_conic g) = (gaussian_alpha, dp_dmean, dp_dconic)"
      and thr: "alpha_threshold config \<le> point_alpha g * gaussian_alpha"
      and l1: "length f = length (w_i s)" and l2: "length grad = length f"
      and l3: "length (grad_point_features s (overlap_to_point args k)) = length grad"
      by (simp_all add: forward_skips_def)
    show ?thesis
      unfolding blend_point_contributes [where pdf = pdf and pixel = pixel and g = g,
          OF idx pdf thr refl refl refl l1 l2 l3]
      by simp
  qed
  show ?thesis
    using walk descending_indices [of end_offset "nat (end_offset - start_offset)"] cases step
      skip go
    by (intro exI [of _ sh'] exI [of _ G] exI [of _ F]) blast
qed

theorem walk_descends_and_stops_at_last_valid_witness:
  "0 < tile_size ex_config \<and> (0::int) \<le> 0 \<and> (0::int) \<le> 5
   \<and> (\<exists>sh' st'. backward_walk ex_config ex_pdf ex_args 0 in_step (0, 0) 0 5 3 [1, 1, 1]
                    (ex_shared, ex_state) = Inr (sh', st')
         \<and> T_i ex_state = 1 / 4 \<and> T_i st' = 1
         \<and> grad_point_features st' 4 = [0, 0, 0]
         \<and> grad_point_features st' 3 = [0, 0, 0]
         \<and> grad_point_features st' 2 = [1 / 4, 1 / 4, 1 / 4]
         \<and> grad_point_features st' 1 = [0, 0, 0]
         \<and> grad_point_features st' 0 = [1 / 2, 1 / 2, 1 / 2])"
proof -
  have h1: "0 < tile_size ex_config" by (simp add: ex_config_def Config_init_def)
  have h2: "(0::int) \<le> 0" and h3: "(0::int) \<le> 5" by simp_all
  have h4: "(4::int) = tile_size ex_config * tile_size ex_config"
    by (simp add: ex_config_def Config_init_def)
  have m: "map (\<lambda>j. 5 - 1 - int j) [0..<nat (5 - 0)] = [4, 3, 2, 1, 0]"
    by (simp add: upt_conv_Cons)
  from walk_descends_and_stops_at_last_valid [OF h1 h2 h3 h4, of ex_pdf ex_args 0 in_step
      "(0, 0)" 3 "[1, 1, 1]" ex_shared ex_state]
  obtain sh' G F where walk:
    "backward_walk ex_config ex_pdf ex_args 0 in_step (0, 0) 0 5 3 [1, 1, 1] (ex_shared, ex_state)
       = bind_r (for_each (\<lambda>k. blend_point ex_config ex_pdf ex_args (0, 0) 3 [1, 1, 1] k
                               (G k) (F k))
                   (map (\<lambda>j. 5 - 1 - int j) [0..<nat (5 - 0)]) ex_state)
           (\<lambda>st'. Inr (sh', st'))"
    and step: "in_step = in_step \<longrightarrow>
              (\<forall>k. G k = points ex_args (overlap_to_point ex_args k)
                 \<and> F k = point_features ex_args (overlap_to_point ex_args k))"
    by (elim exE conjE) (rule that; assumption)
  from step have G: "G = (\<lambda>k. points ex_args (overlap_to_point ex_args k))"
    and F: "F = (\<lambda>k. point_features ex_args (overlap_to_point ex_args k))"
    by auto
  have "\<exists>st'. backward_walk ex_config ex_pdf ex_args 0 in_step (0, 0) 0 5 3 [1, 1, 1]
                    (ex_shared, ex_state) = Inr (sh', st')
         \<and> T_i st' = 1
         \<and> grad_point_features st' 4 = [0, 0, 0]
         \<and> grad_point_features st' 3 = [0, 0, 0]
         \<and> grad_point_features st' 2 = [1 / 4, 1 / 4, 1 / 4]
         \<and> grad_point_features st' 1 = [0, 0, 0]
         \<and> grad_point_features st' 0 = [1 / 2, 1 / 2, 1 / 2]"
    unfolding walk m G F
    by (simp add: blend_point_def unpack_def alpha_grad_from_feature_def
        vadd_def vsub_def vmul_def vscale_def vdivs_def svscale_def
        Let_def ex_state_def ex_args_def ex_point_def ex_pdf_def ex_config_def Config_init_def)
  moreover have "T_i ex_state = 1 / 4" by (simp add: ex_state_def)
  ultimately show ?thesis using h1 by auto
qed

text \<open>
  C5. Both divisions of a contributing step divide by \<open>1 - a\<close> for the clamped alpha \<open>a\<close>,
  which is at most \<open>clamp_max_alpha\<close>; when \<open>clamp_max_alpha < 1\<close> the divisor is positive, so
  multiplying the new transmittance by it gives the old one back. The configuration does
  not check its fields: it stores the \<open>clamp_max_alpha\<close> it is given, and the default lies
  strictly between 0 and 1. The second theorem shows a configuration with
  \<open>clamp_max_alpha = 1\<close>, for which the divisor of a primitive of raw alpha 1 is zero.
\<close>

theorem clamped_divisor_is_positive:
  assumes "point_index < last_point_idx"
      and "pdf (real_of_int (fst pixel) + 1 / 2, real_of_int (snd pixel) + 1 / 2)
             (uv g) (uv_conic g) = (gaussian_alpha, dp_dmean, dp_dconic)"
      and "alpha_threshold config \<le> point_alpha g * gaussian_alpha"
      and "a = min (point_alpha g * gaussian_alpha) (clamp_max_alpha config)"
      and "off = overlap_to_point args point_index"
      and "length feature = length (w_i st)"
      and "length grad = length feature"
      and "length (grad_point_features st off) = length grad"
      and "clamp_max_alpha config < 1"
  shows "a \<le> clamp_max_alpha config \<and> 0 < 1 - a
       \<and> (\<exists>st'. blend_point config pdf args pixel last_point_idx grad point_index g feature st
                  = Inr st'
              \<and> T_i st' * (1 - a) = T_i st
              \<and> point_alpha (grad_points st' off) =
                  point_alpha (grad_points st off)
                  + (\<Sum>k<length feature.
                       (feature ! k * T_i st' - w_i st ! k / (1 - a)) * grad ! k)
                    * gaussian_alpha)
       \<and> clamp_max_alpha (Config_init ts (Some c) ath sth) = c
       \<and> 0 < clamp_max_alpha (Config_init ts None ath sth)
       \<and> clamp_max_alpha (Config_init ts None ath sth) < 1"
proof -
  have a: "a \<le> clamp_max_alpha config" using assms(4) by simp
  then have pos: "0 < 1 - a" using assms(9) by simp
  have sum: "sum_list (map2 (*) (map2 (-) (vscale feature T) (vdivs (w_i st) (1 - a))) grad) =
        (\<Sum>k<length feature. (feature ! k * T - w_i st ! k / (1 - a)) * grad ! k)" for T
    using assms(6,7) by (simp add: alpha_grad_sum)
  have step: "\<exists>st'. blend_point config pdf args pixel last_point_idx grad point_index g feature st
                  = Inr st'
              \<and> T_i st' * (1 - a) = T_i st
              \<and> point_alpha (grad_points st' off) =
                  point_alpha (grad_points st off)
                  + (\<Sum>k<length feature.
                       (feature ! k * T_i st' - w_i st ! k / (1 - a)) * grad ! k)
                    * gaussian_alpha"
    unfolding blend_point_contributes [where pdf = pdf and pixel = pixel and g = g,
        OF assms(1) assms(2) assms(3) assms(4) refl assms(5) assms(6) assms(7) assms(8)]
    using pos by (simp add: sum gadd_def gscale_def pack_def)
  show ?thesis using a pos step by (simp add: Config_init_def)
qed

theorem config_accepts_clamp_of_one:
  "\<not> (0 < clamp_max_alpha (Config_init None (Some 1) None None)
      \<and> clamp_max_alpha (Config_init None (Some 1) None None) < 1)
   \<and> 1 - min (1 * 1) (clamp_max_alpha (Config_init None (Some 1) None None)) = 0"
  by (simp add: Config_init_def)

theorem clamped_divisor_is_positive_witness:
  "clamp_max_alpha ex_config < 1
   \<and> alpha_threshold ex_config \<le> point_alpha (ex_point (1 / 2)) * (1 / 2)
   \<and> (0::real) < 1 - 1 / 2
   \<and> (\<exists>st'. blend_point ex_config ex_pdf ex_args (0, 0) 1 [1, 1, 1] 0 (ex_point (1 / 2))
               [1, 0, 0] ex_state = Inr st'
        \<and> T_i st' * (1 - 1 / 2) = 1 / 4)
   \<and> clamp_max_alpha (Config_init None (Some 2) None None) = 2"
proof -
  have h1: "(0::int) < 1" by simp
  have h9: "clamp_max_alpha ex_config < 1" by (simp add: ex_config_def Config_init_def)
  from clamped_divisor_is_positive [where pdf = ex_pdf and pixel = "(0, 0)"
      and g = "ex_point (1 / 2)", OF h1 ex_pdf_at ex_threshold ex_clamp ex_offset ex_lengths h9,
      of None 2 None None]
  have "\<exists>st'. blend_point ex_config ex_pdf ex_args (0, 0) 1 [1, 1, 1] 0 (ex_point (1 / 2))
               [1, 0, 0] ex_state = Inr st'
        \<and> T_i st' * (1 - 1 / 2) = T_i ex_state"
    and "clamp_max_alpha (Config_init None (Some 2) None None) = 2"
    by blast+
  then show ?thesis using h9 ex_threshold by (simp add: ex_state_def)
qed

text \<open>
  C6. The paged walk is not the straight walk once a thread is a page ahead. In the scene
  of the missing barrier the range has the five entries 0 to 4 and a page has four slots;
  thread 1 reads slot 0 of the first page, for the list index 4, after thread 0 has stored
  the entry 0 there for the second page. Thread 1 ends with the transmittance 32/9 and has
  added 1/12 to the feature gradient of the list entry 4, where the straight walk ends
  with 16/3 and adds 1/4.
\<close>

theorem missing_barrier_breaks_paged_walk:
  "(\<exists>sh' st'. backward_walk ex_config ex_pdf race_args 1 race_sched (1, 0) 0 5 5 [1, 1, 1]
                (ex_shared, ex_state) = Inr (sh', st')
       \<and> T_i st' = 32 / 9 \<and> grad_point_features st' 4 = [1 / 12, 1 / 12, 1 / 12])
   \<and> (\<exists>st'. straight_walk ex_config ex_pdf race_args (1, 0) 0 5 5 [1, 1, 1] ex_state = Inr st'
       \<and> T_i st' = 16 / 3 \<and> grad_point_features st' 4 = [1 / 4, 1 / 4, 1 / 4])"
proof
  obtain sh' where w: "backward_walk ex_config ex_pdf race_args 1 race_sched (1, 0) 0 5 5 [1, 1, 1]
           (ex_shared, ex_state) =
     bind_r (for_each (\<lambda>k. blend_point ex_config ex_pdf race_args (1, 0) 5 [1, 1, 1] k
       (points race_args (overlap_to_point race_args
          (seen_entry 4 5 2 1 (\<lambda>g i. fst (race_sched g i)) k)))
       (point_features race_args (overlap_to_point race_args
          (seen_entry 4 5 2 1 (\<lambda>g i. snd (race_sched g i)) k))))
        [4, 3, 2, 1, 0] ex_state)
       (\<lambda>st'. Inr (sh', st'))"
    using ex_race_walk by blast
  show "\<exists>sh' st'. backward_walk ex_config ex_pdf race_args 1 race_sched (1, 0) 0 5 5 [1, 1, 1]
                (ex_shared, ex_state) = Inr (sh', st')
       \<and> T_i st' = 32 / 9 \<and> grad_point_features st' 4 = [1 / 12, 1 / 12, 1 / 12]"
    unfolding w
    by (simp add: seen_entry_def race_sched_def race_args_def blend_point_def unpack_def
        alpha_grad_from_feature_def vadd_def vsub_def vmul_def vscale_def vdivs_def svscale_def
        Let_def ex_state_def ex_args_def ex_point_def ex_pdf_def ex_config_def Config_init_def)
next
  show "\<exists>st'. straight_walk ex_config ex_pdf race_args (1, 0) 0 5 5 [1, 1, 1] ex_state = Inr st'
       \<and> T_i st' = 16 / 3 \<and> grad_point_features st' 4 = [1 / 4, 1 / 4, 1 / 4]"
    by (simp add: straight_walk_def race_args_def blend_point_def unpack_def
        alpha_grad_from_feature_def vadd_def vsub_def vmul_def vscale_def vdivs_def svscale_def
        Let_def upt_conv_Cons ex_state_def ex_args_def ex_point_def ex_pdf_def ex_config_def
        Config_init_def)
qed

text \<open>
  C7. The configuration record has the four fields \<open>tile_size\<close>, \<open>clamp_max_alpha\<close>,
  \<open>alpha_threshold\<close> and \<open>saturate_threshold\<close>, and a configuration built with no
  argument holds the defaults 16, 0.99, 1/255 and 0.9999.
\<close>

theorem Config_defaults:
  "Config_init None None None None =
     \<lparr>tile_size = 16, clamp_max_alpha = 99 / 100, alpha_threshold = 1 / 255,
      saturate_threshold = 9999 / 10000\<rparr>"
  by (simp add: Config_init_def)

text \<open>
  C8. For a positive tile size and a non-negative image size, \<open>pad_to_tile\<close> returns in
  each dimension the least multiple of the tile size that is not below the dimension; and
  \<open>render_gaussians\<close> rasterizes at that padded size and returns the first \<open>h\<close> rows and
  \<open>w\<close> columns, an image of the requested size when the rasterizer returns an image of the
  size it is asked for.
\<close>

theorem pad_to_tile_least_multiple_and_crop:
  assumes "0 < t" "0 \<le> w" "0 \<le> h"
      and "\<forall>sz cfg. length (rasterize sz cfg) = nat (snd sz)
             \<and> (\<forall>row\<in>set (rasterize sz cfg). length row = nat (fst sz))"
  shows "\<exists>pw ph. pad_to_tile (w, h) t = Inr (pw, ph)
           \<and> t dvd pw \<and> w \<le> pw \<and> (\<forall>m. t dvd m \<and> w \<le> m \<longrightarrow> pw \<le> m)
           \<and> t dvd ph \<and> h \<le> ph \<and> (\<forall>m. t dvd m \<and> h \<le> m \<longrightarrow> ph \<le> m)
           \<and> (\<exists>img. render_gaussians rasterize (w, h) (Some t) = Inr img
                 \<and> img = map (take (nat w))
                           (take (nat h) (rasterize (pw, ph) (Config_init (Some t) None None None)))
                 \<and> length img = nat h \<and> (\<forall>row\<in>set img. length row = nat w))"
proof -
  from pad_least_multiple [OF assms(1), of w] obtain pw where
    pw: "pad t w = Inr pw" "t dvd pw" "w \<le> pw" "\<forall>m. t dvd m \<and> w \<le> m \<longrightarrow> pw \<le> m" by blast
  from pad_least_multiple [OF assms(1), of h] obtain ph where
    ph: "pad t h = Inr ph" "t dvd ph" "h \<le> ph" "\<forall>m. t dvd m \<and> h \<le> m \<longrightarrow> ph \<le> m" by blast
  let ?image = "rasterize (pw, ph) (Config_init (Some t) None None None)"
  let ?img = "map (take (nat w)) (take (nat h) ?image)"
  have p: "pad_to_tile (w, h) t = Inr (pw, ph)" using pw(1) ph(1) by (simp add: pad_to_tile_def)
  have r: "render_gaussians rasterize (w, h) (Some t) = Inr ?img"
    using p assms(2,3) by (simp add: render_gaussians_def py_slice_to_def Let_def)
  have len: "length ?image = nat ph" and rows: "\<forall>row\<in>set ?image. length row = nat pw"
    using assms(4) by simp_all
  have l1: "length ?img = nat h" using len ph(3) by simp
  have l2: "\<forall>row\<in>set ?img. length row = nat w"
  proof
    fix row assume "row \<in> set ?img"
    then obtain r where "r \<in> set (take (nat h) ?image)" "row = take (nat w) r" by auto
    then have "r \<in> set ?image" "row = take (nat w) r" by (auto dest: in_set_takeD)
    then show "length row = nat w" using rows pw(3) by simp
  qed
  show ?thesis using p pw ph r l1 l2 by blast
qed

theorem pad_to_tile_least_multiple_and_crop_witness:
  "(0::int) < 2 \<and> (0::int) \<le> 5 \<and> (0::int) \<le> 3
   \<and> pad_to_tile (5, 3) 2 = Inr (6, 4)
   \<and> (\<exists>img. render_gaussians
               (\<lambda>sz cfg. replicate (nat (snd sz)) (replicate (nat (fst sz)) (0::nat)))
               (5, 3) (Some 2) = Inr img
          \<and> length img = 3 \<and> img ! 0 = [0, 0, 0, 0, 0])"
proof -
  let ?r = "\<lambda>(sz :: int \<times> int) (cfg :: Config).
              replicate (nat (snd sz)) (replicate (nat (fst sz)) (0::nat))"
  have h1: "(0::int) < 2" and h2: "(0::int) \<le> 5" and h3: "(0::int) \<le> 3" by simp_all
  have h4: "\<forall>sz cfg. length (?r sz cfg) = nat (snd sz)
             \<and> (\<forall>row\<in>set (?r sz cfg). length row = nat (fst sz))"
    by simp
  have p: "pad_to_tile (5, 3) 2 = Inr (6, 4)" by (simp add: pad_to_tile_def pad_def)
  from pad_to_tile_least_multiple_and_crop [OF h1 h2 h3 h4]
  obtain pw ph img where r:
    "pad_to_tile (5, 3) 2 = Inr (pw, ph)"
    "render_gaussians ?r (5, 3) (Some 2) = Inr img"
    "img = map (take (nat 5)) (take (nat 3) (?r (pw, ph) (Config_init (Some 2) None None None)))"
    "length img = nat 3"
    by (elim exE conjE) (rule that; assumption)
  from r(1) p have "pw = 6" "ph = 4" by simp_all
  with r(3) have "img ! 0 = replicate 5 0" by simp
  moreover have "replicate 5 (0::nat) = [0, 0, 0, 0, 0]" by (simp add: numeral_eq_Suc)
  ultimately have "img ! 0 = [0, 0, 0, 0, 0]" by simp
  then show ?thesis using p r(2) r(4) by simp
qed

text \<open>
  C9. When the kernel returns, under any schedule, every pixel of the tile grid has been
  overwritten: its entry of \<open>image_feature\<close> holds the zero vector, its entry of \<open>image_alpha\<close>
  holds one minus the transmittance at the end of the thread's reverse walk, which started
  from one minus the saved alpha with a zero suffix sum, and its entry of
  \<open>image_last_valid\<close> holds the value it held before. With the thread's schedule in step that
  walk is the straight walk. The kernel does return when the feature vectors have three
  components.
\<close>

theorem backward_overwrites_forward_state:
  assumes "0 < tile_size config"
      and "\<forall>t. 0 \<le> fst (tile_overlap_ranges args t)
             \<and> fst (tile_overlap_ranges args t) \<le> snd (tile_overlap_ranges args t)"
      and "0 \<le> tile_v" "tile_v < camera_height div tile_size config"
      and "0 \<le> tile_u" "tile_u < camera_width div tile_size config"
      and "0 \<le> v" "v < tile_size config" "0 \<le> u" "u < tile_size config"
      and "p = (tile_v * tile_size config + v, tile_u * tile_size config + u)"
      and "tile_overlap_ranges args (tile_u + tile_v * (camera_width div tile_size config))
             = (start_offset, end_offset)"
  shows "(\<forall>sh' ks'. backward_kernel config feature_size pdf args sched camera_height camera_width
                      (sh, ks) = Inr (sh', ks') \<longrightarrow>
            image_feature ks' p = replicate feature_size 0
          \<and> image_last_valid ks' p = image_last_valid ks p
          \<and> (\<exists>sh0 sh1 st st'. T_i st = 1 - image_alpha ks p \<and> w_i st = [0, 0, 0]
                \<and> backward_walk config pdf args (u + v * tile_size config)
                     (sched (tile_v, tile_u, v, u)) (snd p, fst p) start_offset end_offset
                     (image_last_valid ks p) (grad_image_feature args p) (sh0, st)
                   = Inr (sh1, st')
                \<and> (sched (tile_v, tile_u, v, u) = in_step \<longrightarrow>
                     straight_walk config pdf args (snd p, fst p) start_offset end_offset
                       (image_last_valid ks p) (grad_image_feature args p) st = Inr st')
                \<and> image_alpha ks' p = 1 - T_i st'))
       \<and> (feature_size = 3 \<and> (\<forall>i. length (point_features args i) = feature_size)
            \<and> (\<forall>q. length (grad_image_feature args q) = feature_size)
            \<and> (\<forall>i. length (grad_point_features ks i) = feature_size)
          \<longrightarrow> (\<exists>sh' ks'. backward_kernel config feature_size pdf args sched camera_height
                           camera_width (sh, ks) = Inr (sh', ks')))"
proof (intro conjI allI impI)
  fix sh' ks'
  assume run: "backward_kernel config feature_size pdf args sched camera_height camera_width
                 (sh, ks) = Inr (sh', ks')"
  define pix where "pix = (\<lambda>(tile_v, tile_u, v, u).
      (tile_v * tile_size config + v, tile_u * tile_size config + u))"
  let ?xs = "ndrange4 (camera_height div tile_size config) (camera_width div tile_size config)
               (tile_size config) (tile_size config)"
  have d: "distinct (map pix ?xs)" unfolding pix_def by (rule distinct_pixels [OF assms(1)])
  have r: "for_each (\<lambda>idx. thread_body config feature_size pdf args (sched idx)
                              (camera_width div tile_size config) idx)
             ?xs (sh, ks) = Inr (sh', ks')"
    using run by (simp add: backward_kernel_def Let_def)
  have mem: "(tile_v, tile_u, v, u) \<in> set ?xs" using assms(3-10) by (simp add: set_ndrange4)
  have pp: "pix (tile_v, tile_u, v, u) = p" by (simp add: pix_def assms(11))
  have wf: "0 \<le> start_offset" "start_offset \<le> end_offset"
    using assms(2) [rule_format, of "tile_u + tile_v * (camera_width div tile_size config)"]
      assms(12) by simp_all
  note k = kernel_threads [OF pix_def d r]
  from k show "image_last_valid ks' p = image_last_valid ks p" by simp
  from k mem have
    "image_feature ks' (pix (tile_v, tile_u, v, u)) = replicate feature_size 0
     \<and> (\<exists>sh0 sh1 st st'. T_i st = 1 - image_alpha ks (pix (tile_v, tile_u, v, u))
           \<and> w_i st = [0, 0, 0]
           \<and> backward_walk config pdf args (u + v * tile_size config)
                (sched (tile_v, tile_u, v, u))
                (snd (pix (tile_v, tile_u, v, u)), fst (pix (tile_v, tile_u, v, u)))
                (fst (tile_overlap_ranges args (tile_u + tile_v * (camera_width div tile_size config))))
                (snd (tile_overlap_ranges args (tile_u + tile_v * (camera_width div tile_size config))))
                (image_last_valid ks (pix (tile_v, tile_u, v, u)))
                (grad_image_feature args (pix (tile_v, tile_u, v, u))) (sh0, st) = Inr (sh1, st')
           \<and> image_alpha ks' (pix (tile_v, tile_u, v, u)) = 1 - T_i st')"
    by blast
  then have f: "image_feature ks' p = replicate feature_size 0"
    and w: "\<exists>sh0 sh1 st st'. T_i st = 1 - image_alpha ks p \<and> w_i st = [0, 0, 0]
           \<and> backward_walk config pdf args (u + v * tile_size config)
                (sched (tile_v, tile_u, v, u)) (snd p, fst p) start_offset end_offset
                (image_last_valid ks p) (grad_image_feature args p) (sh0, st) = Inr (sh1, st')
           \<and> image_alpha ks' p = 1 - T_i st'"
    unfolding pp assms(12) by simp_all
  show "image_feature ks' p = replicate feature_size 0" by (rule f)
  from w obtain sh0 sh1 st st' where st:
    "T_i st = 1 - image_alpha ks p" "w_i st = [0, 0, 0]"
    "backward_walk config pdf args (u + v * tile_size config)
       (sched (tile_v, tile_u, v, u)) (snd p, fst p) start_offset end_offset
       (image_last_valid ks p) (grad_image_feature args p) (sh0, st) = Inr (sh1, st')"
    "image_alpha ks' p = 1 - T_i st'"
    by blast
  have s: "straight_walk config pdf args (snd p, fst p) start_offset end_offset
             (image_last_valid ks p) (grad_image_feature args p) st = Inr st'"
    if "sched (tile_v, tile_u, v, u) = in_step"
  proof -
    from backward_walk_in_step [OF assms(1) wf, of pdf args "u + v * tile_size config"
        "(snd p, fst p)" "image_last_valid ks p" "grad_image_feature args p" sh0 st]
    obtain sh2 where
      "backward_walk config pdf args (u + v * tile_size config) in_step (snd p, fst p)
         start_offset end_offset (image_last_valid ks p) (grad_image_feature args p) (sh0, st) =
       bind_r (straight_walk config pdf args (snd p, fst p) start_offset end_offset
                 (image_last_valid ks p) (grad_image_feature args p) st)
         (\<lambda>st'. Inr (sh2, st'))"
      by blast
    with st(3) that show ?thesis
      by (cases "straight_walk config pdf args (snd p, fst p) start_offset end_offset
                   (image_last_valid ks p) (grad_image_feature args p) st") simp_all
  qed
  show "\<exists>sh0 sh1 st st'. T_i st = 1 - image_alpha ks p \<and> w_i st = [0, 0, 0]
                \<and> backward_walk config pdf args (u + v * tile_size config)
                     (sched (tile_v, tile_u, v, u)) (snd p, fst p) start_offset end_offset
                     (image_last_valid ks p) (grad_image_feature args p) (sh0, st)
                   = Inr (sh1, st')
                \<and> (sched (tile_v, tile_u, v, u) = in_step \<longrightarrow>
                     straight_walk config pdf args (snd p, fst p) start_offset end_offset
                       (image_last_valid ks p) (grad_image_feature args p) st = Inr st')
                \<and> image_alpha ks' p = 1 - T_i st'"
    using st s by blast
next
  assume h: "feature_size = 3 \<and> (\<forall>i. length (point_features args i) = feature_size)
            \<and> (\<forall>q. length (grad_image_feature args q) = feature_size)
            \<and> (\<forall>i. length (grad_point_features ks i) = feature_size)"
  show "\<exists>sh' ks'. backward_kernel config feature_size pdf args sched camera_height camera_width
                           (sh, ks) = Inr (sh', ks')"
    by (rule backward_kernel_total [OF assms(1,2)]) (use h in simp_all)
qed

theorem backward_overwrites_forward_state_witness:
  "0 < tile_size ex_config
   \<and> (0::int) < 2 div tile_size ex_config
   \<and> tile_overlap_ranges ex_args (0 + 0 * (2 div tile_size ex_config)) = (0, 5)
   \<and> (\<exists>sh' ks'. backward_kernel ex_config 3 ex_pdf ex_args (\<lambda>idx. in_step) 2 2
                    (ex_shared, ex_kernel_state) = Inr (sh', ks')
         \<and> image_feature ks' (0, 0) = [0, 0, 0]
         \<and> image_feature ex_kernel_state (0, 0) = [1, 0, 0]
         \<and> image_last_valid ks' (0, 0) = 5
         \<and> image_alpha ks' (0, 0) = 0
         \<and> image_alpha ex_kernel_state (0, 0) = 15 / 16)"
proof -
  have h1: "0 < tile_size ex_config" by (simp add: ex_config_def Config_init_def)
  have h2: "\<forall>t. 0 \<le> fst (tile_overlap_ranges ex_args t)
             \<and> fst (tile_overlap_ranges ex_args t) \<le> snd (tile_overlap_ranges ex_args t)"
    by (simp add: ex_args_def)
  have z: "(0::int) \<le> 0" by simp
  have d: "(0::int) < 2 div tile_size ex_config" by (simp add: ex_config_def Config_init_def)
  have p: "((0::int), (0::int)) = (0 * tile_size ex_config + 0, 0 * tile_size ex_config + 0)"
    by simp
  have r: "tile_overlap_ranges ex_args (0 + 0 * (2 div tile_size ex_config)) = (0, 5)"
    by (simp add: ex_args_def)
  note t = backward_overwrites_forward_state [OF h1 h2 z d z d z h1 z h1 p r, of 3 ex_pdf
      "\<lambda>idx. in_step" ex_shared ex_kernel_state]
  have shapes: "(3::nat) = 3 \<and> (\<forall>i. length (point_features ex_args i) = 3)
            \<and> (\<forall>q. length (grad_image_feature ex_args q) = 3)
            \<and> (\<forall>i. length (grad_point_features ex_kernel_state i) = 3)"
    by (simp add: ex_args_def ex_kernel_state_def)
  from t shapes obtain sh' ks' where run:
    "backward_kernel ex_config 3 ex_pdf ex_args (\<lambda>idx. in_step) 2 2
       (ex_shared, ex_kernel_state) = Inr (sh', ks')"
    by blast
  have args: "image_last_valid ex_kernel_state (0, 0) = 5"
    "grad_image_feature ex_args (0, 0) = [1, 1, 1]"
    "image_alpha ex_kernel_state (0, 0) = 15 / 16"
    "image_feature ex_kernel_state (0, 0) = [1, 0, 0]"
    by (simp_all add: ex_kernel_state_def ex_args_def)
  from t run have f: "image_feature ks' (0, 0) = replicate 3 0"
    and l: "image_last_valid ks' (0, 0) = image_last_valid ex_kernel_state (0, 0)"
    and a: "\<exists>sh0 sh1 st st'. T_i st = 1 - image_alpha ex_kernel_state (0, 0) \<and> w_i st = [0, 0, 0]
                \<and> backward_walk ex_config ex_pdf ex_args (0 + 0 * tile_size ex_config) in_step
                     (snd ((0::int), (0::int)), fst ((0::int), (0::int)))
                     0 5 (image_last_valid ex_kernel_state (0, 0))
                     (grad_image_feature ex_args (0, 0)) (sh0, st) = Inr (sh1, st')
                \<and> (in_step = in_step \<longrightarrow>
                     straight_walk ex_config ex_pdf ex_args
                       (snd ((0::int), (0::int)), fst ((0::int), (0::int)))
                       0 5 (image_last_valid ex_kernel_state (0, 0))
                       (grad_image_feature ex_args (0, 0)) st = Inr st')
                \<and> image_alpha ks' (0, 0) = 1 - T_i st'"
    by blast+
  from a obtain st st' where st: "T_i st = 1 / 16"
    "straight_walk ex_config ex_pdf ex_args (0, 0) 0 5 5 [1, 1, 1] st = Inr st'"
    "image_alpha ks' (0, 0) = 1 - T_i st'"
    unfolding args by auto
  from ex_walk obtain st0 where st0:
    "straight_walk ex_config ex_pdf ex_args (0, 0) 0 5 5 [1, 1, 1]
           (init_thread ex_kernel_state (15 / 16)) = Inr st0" "T_i st0 = 1"
    by blast
  have "T_i st' = T_i st0"
    by (rule straight_walk_T [OF st(2) st0(1)]) (simp add: st(1) init_thread_def)
  then have a0: "image_alpha ks' (0, 0) = 0" using st(3) st0(2) by simp
  have f0: "image_feature ks' (0, 0) = [0, 0, 0]" using f by (simp add: numeral_3_eq_3)
  show ?thesis using h1 d r run f0 l a0 args by auto
qed

text \<open>
  C10. The suffix sum starts as a vector of three components whatever the feature size
  is, and a contributing step succeeds exactly when the feature vectors have three
  components: with any other feature size it ends in \<open>ShapeMismatch\<close>.
\<close>

theorem suffix_sum_is_three_wide:
  assumes "point_index < last_point_idx"
      and "pdf (real_of_int (fst pixel) + 1 / 2, real_of_int (snd pixel) + 1 / 2)
             (uv g) (uv_conic g) = (gaussian_alpha, dp_dmean, dp_dconic)"
      and "alpha_threshold config \<le> point_alpha g * gaussian_alpha"
      and "length (w_i st) = 3"
      and "length grad = length feature"
      and "length (grad_point_features st (overlap_to_point args point_index)) = length feature"
  shows "length (w_i (init_thread b accumulated_alpha)) = 3
       \<and> ((\<exists>st'. blend_point config pdf args pixel last_point_idx grad point_index g feature st
                   = Inr st') \<longleftrightarrow> length feature = 3)
       \<and> (length feature \<noteq> 3 \<longrightarrow>
            blend_point config pdf args pixel last_point_idx grad point_index g feature st
              = Inl ShapeMismatch)
       \<and> (length feature = 3 \<longrightarrow>
            (\<exists>st'. blend_point config pdf args pixel last_point_idx grad point_index g feature st
                   = Inr st' \<and> length (w_i st') = 3))"
proof -
  have bad: "blend_point config pdf args pixel last_point_idx grad point_index g feature st
               = Inl ShapeMismatch" if "length feature \<noteq> 3"
    using that assms
    by (simp add: blend_point_def unpack_def alpha_grad_from_feature_def vsub_def Let_def)
  have good: "\<exists>st'. blend_point config pdf args pixel last_point_idx grad point_index g feature st
                   = Inr st' \<and> length (w_i st') = 3" if f: "length feature = 3"
  proof -
    have l: "length feature = length (w_i st)" "length grad = length feature"
      "length (grad_point_features st (overlap_to_point args point_index)) = length grad"
      using f assms(4,5,6) by simp_all
    show ?thesis
      unfolding blend_point_contributes [where pdf = pdf and pixel = pixel and g = g,
          OF assms(1) assms(2) assms(3) refl refl refl l]
      using f assms(4) by simp
  qed
  have init: "length (w_i (init_thread b accumulated_alpha)) = 3"
    by (simp add: init_thread_def)
  show ?thesis using bad good init by (cases "length feature = 3") auto
qed

theorem suffix_sum_is_three_wide_witness:
  "length (w_i ex_state) = 3
   \<and> (\<exists>st'. blend_point ex_config ex_pdf ex_args (0, 0) 1 [1, 1, 1] 0 (ex_point (1 / 2))
               [1, 0, 0] ex_state = Inr st' \<and> length (w_i st') = 3)
   \<and> blend_point ex_config ex_pdf ex_args (0, 0) 1 [1, 1] 0 (ex_point (1 / 2)) [1, 0]
       (ex_state\<lparr>grad_point_features := (\<lambda>i. [0, 0])\<rparr>) = Inl ShapeMismatch"
proof -
  have h1: "(0::int) < 1" by simp
  have w3: "length (w_i ex_state) = 3" by (simp add: ex_state_def)
  have w2: "length (w_i (ex_state\<lparr>grad_point_features := (\<lambda>i. [0, 0])\<rparr>)) = 3"
    by (simp add: ex_state_def)
  have a: "\<exists>st'. blend_point ex_config ex_pdf ex_args (0, 0) 1 [1, 1, 1] 0 (ex_point (1 / 2))
               [1, 0, 0] ex_state = Inr st' \<and> length (w_i st') = 3"
    using suffix_sum_is_three_wide [where pdf = ex_pdf and pixel = "(0, 0)"
        and g = "ex_point (1 / 2)" and feature = "[1, 0, 0]" and grad = "[1, 1, 1]"
        and st = ex_state and args = ex_args and b = ex_state and accumulated_alpha = 0,
        OF h1 ex_pdf_at ex_threshold w3]
    by (simp add: ex_state_def)
  have b: "blend_point ex_config ex_pdf ex_args (0, 0) 1 [1, 1] 0 (ex_point (1 / 2)) [1, 0]
       (ex_state\<lparr>grad_point_features := (\<lambda>i. [0, 0])\<rparr>) = Inl ShapeMismatch"
    using suffix_sum_is_three_wide [where pdf = ex_pdf and pixel = "(0, 0)"
        and g = "ex_point (1 / 2)" and feature = "[1, 0]" and grad = "[1, 1]"
        and st = "ex_state\<lparr>grad_point_features := (\<lambda>i. [0, 0])\<rparr>" and args = ex_args
        and b = ex_state and accumulated_alpha = 0,
        OF h1 ex_pdf_at ex_threshold w2]
    by simp
  show ?thesis using w3 a b by blast
qed

end
